theory Spec2Isabelle
  imports Main "HOL-Library.Word"
begin

section \<open>Upload service: a shallow embedding of app.py\<close>

text \<open>
  Python values are modelled as follows. A \<^verbatim>\<open>str\<close> is a \<^typ>\<open>string\<close>, one
  \<^typ>\<open>char\<close> per code point below 256 (the character classes \<^verbatim>\<open>\w\<close>, \<^verbatim>\<open>\d\<close> and
  \<^verbatim>\<open>str.lower\<close> are given for that range); \<^verbatim>\<open>bytes\<close> is a list of 8-bit words; an
  \<^verbatim>\<open>int\<close> is an \<^typ>\<open>int\<close>; \<^verbatim>\<open>Optional[int]\<close> is \<^typ>\<open>int option\<close>. An exception is
  a value of \<open>py_exc\<close>, and a function that may raise returns \<open>py_exc + 'a\<close>.
  The conversions \<^verbatim>\<open>int(s)\<close> of a digit string and \<^verbatim>\<open>str(n)\<close> are taken as total, that
  is, below the interpreter's limit on the number of digits. What the handler takes from its
  environment is an argument of the model: the configuration read at import, the
  filesystem, the value of \<^verbatim>\<open>uuid.uuid4().hex\<close>, and the outcome of the final write.
\<close>

subsection \<open>Strings\<close>

type_synonym byte = "8 word"

definition code :: "char \<Rightarrow> nat" where
  "code c = of_char c"

definition is_digit :: "char \<Rightarrow> bool" where
  \<comment> \<open>\<^verbatim>\<open>\d\<close>\<close>
  "is_digit c = (48 \<le> code c \<and> code c \<le> 57)"

definition is_word :: "char \<Rightarrow> bool" where
  \<comment> \<open>\<^verbatim>\<open>\w\<close>: alphanumeric or underscore\<close>
  "is_word c = (let n = code c in
     (48 \<le> n \<and> n \<le> 57) \<or> (65 \<le> n \<and> n \<le> 90) \<or> (97 \<le> n \<and> n \<le> 122) \<or> n = 95 \<or>
     n = 170 \<or> n = 178 \<or> n = 179 \<or> n = 181 \<or> n = 185 \<or> n = 186 \<or>
     (188 \<le> n \<and> n \<le> 190) \<or> (192 \<le> n \<and> n \<le> 214) \<or> (216 \<le> n \<and> n \<le> 246) \<or>
     (248 \<le> n \<and> n \<le> 255))"

definition lower_char :: "char \<Rightarrow> char" where
  "lower_char c = (let n = code c in
     if (65 \<le> n \<and> n \<le> 90) \<or> (192 \<le> n \<and> n \<le> 214) \<or> (216 \<le> n \<and> n \<le> 222)
     then char_of (n + 32) else c)"

definition lower :: "string \<Rightarrow> string" where
  \<comment> \<open>\<^verbatim>\<open>str.lower()\<close>\<close>
  "lower s = map lower_char s"

definition rstrip_slash :: "string \<Rightarrow> string" where
  \<comment> \<open>\<^verbatim>\<open>s.rstrip("/")\<close>\<close>
  "rstrip_slash s = rev (dropWhile (\<lambda>c. c = CHR ''/'') (rev s))"

definition digit_char :: "nat \<Rightarrow> char" where
  "digit_char d = char_of (48 + d)"

fun str_nat :: "nat \<Rightarrow> string" where
  "str_nat n = (if n < 10 then [digit_char n] else str_nat (n div 10) @ [digit_char (n mod 10)])"

declare str_nat.simps [simp del]

definition str_int :: "int \<Rightarrow> string" where
  \<comment> \<open>\<^verbatim>\<open>str(n)\<close> and \<^verbatim>\<open>f"{n}"\<close> of an int\<close>
  "str_int i = (if i < 0 then CHR ''-'' # str_nat (nat (- i)) else str_nat (nat i))"

definition int_of_digits :: "string \<Rightarrow> int" where
  \<comment> \<open>\<^verbatim>\<open>int(s)\<close> of a string of decimal digits\<close>
  "int_of_digits s = foldl (\<lambda>a c. 10 * a + int (code c - 48)) 0 s"

definition os_path_join :: "string \<Rightarrow> string \<Rightarrow> string" where
  \<comment> \<open>\<^verbatim>\<open>os.path.join(a, b)\<close> (posixpath)\<close>
  "os_path_join a b =
     (if b \<noteq> [] \<and> hd b = CHR ''/'' then b
      else if a = [] \<or> last a = CHR ''/'' then a @ b
      else a @ ''/'' @ b)"

definition os_path_basename :: "string \<Rightarrow> string" where
  \<comment> \<open>\<^verbatim>\<open>os.path.basename(p)\<close>: what follows the last slash\<close>
  "os_path_basename p = rev (takeWhile (\<lambda>c. c \<noteq> CHR ''/'') (rev p))"

subsection \<open>Exceptions\<close>

datatype py_exc =
    HTTPException int string
  | FileExistsError
  | FileNotFoundError
  | NotADirectoryError
  | IsADirectoryError
  | OSError
  | KeyError

definition is_OSError :: "py_exc \<Rightarrow> bool" where
  \<comment> \<open>the subclasses of \<^verbatim>\<open>OSError\<close>\<close>
  "is_OSError e = (e = FileExistsError \<or> e = FileNotFoundError \<or> e = NotADirectoryError \<or>
     e = IsADirectoryError \<or> e = OSError)"

subsection \<open>Base64 (the standard library's codec)\<close>

definition b64_char :: "nat \<Rightarrow> char" where
  \<comment> \<open>the alphabet \<^verbatim>\<open>A-Za-z0-9+/\<close> by index\<close>
  "b64_char i =
     (if i < 26 then char_of (65 + i)
      else if i < 52 then char_of (97 + (i - 26))
      else if i < 62 then char_of (48 + (i - 52))
      else if i = 62 then CHR ''+'' else CHR ''/'')"

definition b64_val :: "char \<Rightarrow> nat option" where
  "b64_val c = (let n = code c in
     if 65 \<le> n \<and> n \<le> 90 then Some (n - 65)
     else if 97 \<le> n \<and> n \<le> 122 then Some (n - 97 + 26)
     else if 48 \<le> n \<and> n \<le> 57 then Some (n - 48 + 52)
     else if c = CHR ''+'' then Some 62
     else if c = CHR ''/'' then Some 63
     else None)"

fun b64encode :: "byte list \<Rightarrow> string" where
  "b64encode [] = []"
| "b64encode [a] =
     [b64_char (unat a div 4), b64_char (unat a mod 4 * 16), CHR ''='', CHR ''='']"
| "b64encode [a, b] =
     [b64_char (unat a div 4), b64_char (unat a mod 4 * 16 + unat b div 16),
      b64_char (unat b mod 16 * 4), CHR ''='']"
| "b64encode (a # b # c # bs) =
     [b64_char (unat a div 4), b64_char (unat a mod 4 * 16 + unat b div 16),
      b64_char (unat b mod 16 * 4 + unat c div 64), b64_char (unat c mod 64)] @ b64encode bs"

text \<open>
  \<^verbatim>\<open>binascii.a2b_base64(s, strict_mode=True)\<close> as CPython 3.11 runs it: one pass over the
  characters with the position in the current quad, the bits left over from the previous
  character, the count of pad characters seen in a row, and whether padding has started.
  \<open>None\<close> is \<^verbatim>\<open>binascii.Error\<close>.
\<close>

record a2b_state =
  quad_pos :: nat
  leftchar :: nat
  pads :: nat
  padding_started :: bool
  bin_data :: "byte list"

fun a2b_loop :: "string \<Rightarrow> a2b_state \<Rightarrow> byte list option" where
  "a2b_loop [] st = (if quad_pos st \<noteq> 0 then None else Some (bin_data st))"
| "a2b_loop (ch # rest) st =
     (if ch = CHR ''='' then
        (if quad_pos st \<ge> 2 \<and> quad_pos st + (pads st + 1) \<ge> 4
         then (if rest \<noteq> [] then None else Some (bin_data st))
         else a2b_loop rest
                (st\<lparr>padding_started := True,
                    pads := (if quad_pos st \<ge> 2 then pads st + 1 else pads st)\<rparr>))
      else (case b64_val ch of
          None \<Rightarrow> None
        | Some v \<Rightarrow>
            if padding_started st then None
            else if quad_pos st = 0 then
              a2b_loop rest (st\<lparr>pads := 0, quad_pos := 1, leftchar := v\<rparr>)
            else if quad_pos st = 1 then
              a2b_loop rest (st\<lparr>pads := 0, quad_pos := 2, leftchar := v mod 16,
                bin_data := bin_data st @ [of_nat (leftchar st * 4 + v div 16)]\<rparr>)
            else if quad_pos st = 2 then
              a2b_loop rest (st\<lparr>pads := 0, quad_pos := 3, leftchar := v mod 4,
                bin_data := bin_data st @ [of_nat (leftchar st * 16 + v div 4)]\<rparr>)
            else
              a2b_loop rest (st\<lparr>pads := 0, quad_pos := 0, leftchar := 0,
                bin_data := bin_data st @ [of_nat (leftchar st * 64 + v)]\<rparr>)))"

definition b64decode_validate :: "string \<Rightarrow> byte list option" where
  \<comment> \<open>\<^verbatim>\<open>base64.b64decode(s, validate=True)\<close>; a non-ASCII string raises \<^verbatim>\<open>ValueError\<close>\<close>
  "b64decode_validate s =
     (if \<exists>c \<in> set s. code c \<ge> 128 then None
      else if s \<noteq> [] \<and> hd s = CHR ''='' then None
      else a2b_loop s \<lparr>quad_pos = 0, leftchar = 0, pads = 0, padding_started = False,
                       bin_data = []\<rparr>)"

subsection \<open>Configuration and payload decoding\<close>

record config =
  IMAGES_ROOT :: string
  BASE_URL_ENV :: "string option"
  MAX_SIZE_MB :: int

definition ALLOWED_MIMES :: "string \<rightharpoonup> string" where
  "ALLOWED_MIMES = map_of
     [(''image/jpeg'', ''jpg''), (''image/png'', ''png''), (''image/webp'', ''webp'')]"

definition newline :: char where
  "newline = char_of (10 :: nat)"

definition is_mime_char :: "char \<Rightarrow> bool" where
  \<comment> \<open>the class \<^verbatim>\<open>[\w\-\.+/]\<close>\<close>
  "is_mime_char c = (is_word c \<or> c = CHR ''-'' \<or> c = CHR ''.'' \<or> c = CHR ''+'' \<or> c = CHR ''/'')"

definition strip_final_newline :: "string \<Rightarrow> string" where
  \<comment> \<open>\<^verbatim>\<open>$\<close> also matches just before a newline that ends the string\<close>
  "strip_final_newline s = (if s \<noteq> [] \<and> last s = newline then butlast s else s)"

definition DATA_URL_RE_match :: "string \<Rightarrow> (string \<times> string) option" where
  \<comment> \<open>\<^verbatim>\<open>^data:(?P<mime>[\w\-\.+/]+);base64,(?P<b64>.+)$\<close>: the groups mime and b64\<close>
  "DATA_URL_RE_match s =
     (if take 5 s = ''data:'' then
        (let r = drop 5 s; mime = takeWhile is_mime_char r; r' = dropWhile is_mime_char r in
         if mime \<noteq> [] \<and> take 8 r' = '';base64,'' then
           (let b64 = strip_final_newline (drop 8 r') in
            if b64 \<noteq> [] \<and> newline \<notin> set b64 then Some (mime, b64) else None)
         else None)
      else None)"

definition a_acute :: char where "a_acute = char_of (225 :: nat)"
definition a_tilde :: char where "a_tilde = char_of (227 :: nat)"
definition i_acute :: char where "i_acute = char_of (237 :: nat)"
definition o_acute :: char where "o_acute = char_of (243 :: nat)"
definition u_acute :: char where "u_acute = char_of (250 :: nat)"

definition invalido :: string where
  "invalido = ''inv'' @ [a_acute] @ ''lido''"

definition parse_data_url :: "config \<Rightarrow> string \<Rightarrow> py_exc + (string \<times> byte list)" where
  "parse_data_url cfg data_url =
     (if int (length data_url) > 50 * 1024 * 1024
      then Inl (HTTPException 400 (''data_url '' @ invalido @ '' ou muito grande''))
      else case DATA_URL_RE_match data_url of
        None \<Rightarrow> Inl (HTTPException 400 (''data_url '' @ invalido))
      | Some (m_mime, b64) \<Rightarrow>
          (let mime = lower m_mime in
           if ALLOWED_MIMES mime = None
           then Inl (HTTPException 400 (''MIME n'' @ [a_tilde] @ ''o permitido: '' @ mime))
           else case b64decode_validate b64 of
             None \<Rightarrow> Inl (HTTPException 400 (''base64 '' @ invalido))
           | Some binary \<Rightarrow>
               if int (length binary) > MAX_SIZE_MB cfg * 1024 * 1024
               then Inl (HTTPException 413 (''Arquivo > '' @ str_int (MAX_SIZE_MB cfg) @ ''MB''))
               else Inr (mime, binary)))"

subsection \<open>Base URL\<close>

text \<open>
  Of the request, \<^verbatim>\<open>get_base_url\<close> reads the headers (looked up by lower-case name, as
  \<^verbatim>\<open>request.headers.get\<close> does), \<^verbatim>\<open>request.url.scheme\<close> and \<^verbatim>\<open>str(request.base_url)\<close>.
\<close>

record request =
  headers :: "string \<rightharpoonup> string"
  url_scheme :: string
  base_url :: string

definition get_base_url :: "config \<Rightarrow> request \<Rightarrow> string" where
  "get_base_url cfg request =
     (let fallback =
        (let f_proto = headers request ''x-forwarded-proto'';
             f_host = headers request ''x-forwarded-host'';
             f_port = headers request ''x-forwarded-port''
         in case f_host of
           None \<Rightarrow> rstrip_slash (base_url request)
         | Some host \<Rightarrow>
             if host = [] then rstrip_slash (base_url request)
             else
               (let scheme = (case f_proto of None \<Rightarrow> url_scheme request
                              | Some p \<Rightarrow> if p \<noteq> [] then p else url_scheme request);
                    host' =
                      (case f_port of None \<Rightarrow> host
                       | Some port \<Rightarrow>
                           if port \<noteq> [] \<and> CHR '':'' \<notin> set host \<and> port \<noteq> ''80'' \<and> port \<noteq> ''443''
                           then (if \<not> ((scheme = ''http'' \<and> port = ''80'') \<or>
                                         (scheme = ''https'' \<and> port = ''443''))
                                 then host @ '':'' @ port else host)
                           else host)
                in scheme @ ''://'' @ host'))
      in case BASE_URL_ENV cfg of
        None \<Rightarrow> fallback
      | Some b \<Rightarrow> if b \<noteq> [] then rstrip_slash b else fallback)"

subsection \<open>The filesystem\<close>

text \<open>
  The filesystem is a map from path strings to nodes. Opening a file resolves the directory
  it is opened in first, then the path itself. The model does not follow ancestry any
  further: \<^verbatim>\<open>IMAGES_ROOT\<close> is created when the module is loaded, and paths are compared as
  strings.
\<close>

datatype node = Dir | File "byte list"

type_synonym fs = "string \<rightharpoonup> node"

definition os_path_exists :: "fs \<Rightarrow> string \<Rightarrow> bool" where
  "os_path_exists fs p = (fs p \<noteq> None)"

definition os_makedirs :: "fs \<Rightarrow> string \<Rightarrow> py_exc + fs" where
  \<comment> \<open>\<^verbatim>\<open>os.makedirs(p, exist_ok=True)\<close>\<close>
  "os_makedirs fs p =
     (case fs p of
        None \<Rightarrow> Inr (fs(p \<mapsto> Dir))
      | Some Dir \<Rightarrow> Inr fs
      | Some (File _) \<Rightarrow> Inl FileExistsError)"

definition open_x :: "fs \<Rightarrow> string \<Rightarrow> string \<Rightarrow> py_exc + fs" where
  \<comment> \<open>\<^verbatim>\<open>with open(full, "x"): pass\<close>, with \<open>full\<close> a name joined to \<open>dir_path\<close>\<close>
  "open_x fs dir_path full =
     (case fs dir_path of
        None \<Rightarrow> Inl FileNotFoundError
      | Some (File _) \<Rightarrow> Inl NotADirectoryError
      | Some Dir \<Rightarrow>
          (case fs full of
             None \<Rightarrow> Inr (fs(full \<mapsto> File []))
           | Some _ \<Rightarrow> Inl FileExistsError))"

definition os_unlink :: "fs \<Rightarrow> string \<Rightarrow> py_exc + fs" where
  "os_unlink fs full =
     (case fs full of
        None \<Rightarrow> Inl FileNotFoundError
      | Some Dir \<Rightarrow> Inl IsADirectoryError
      | Some (File _) \<Rightarrow> Inr (fs(full := None)))"

text \<open>
  What the environment does to \<^verbatim>\<open>with open(full_path, "wb") as f: f.write(binary)\<close>: the
  write goes through, or \<^verbatim>\<open>open\<close> fails before it creates anything, or the file is
  created and the write (or the flush on close) fails after some bytes reached it.
\<close>

datatype write_outcome = WriteOk | OpenFails | WriteFails nat

definition open_wb_write ::
    "write_outcome \<Rightarrow> fs \<Rightarrow> string \<Rightarrow> string \<Rightarrow> byte list \<Rightarrow> fs \<times> (py_exc + unit)" where
  "open_wb_write outcome fs dir_path full binary =
     (case fs dir_path of
        None \<Rightarrow> (fs, Inl FileNotFoundError)
      | Some (File _) \<Rightarrow> (fs, Inl NotADirectoryError)
      | Some Dir \<Rightarrow>
          (case fs full of
             Some Dir \<Rightarrow> (fs, Inl IsADirectoryError)
           | _ \<Rightarrow>
              (case outcome of
                 WriteOk \<Rightarrow> (fs(full \<mapsto> File binary), Inr ())
               | OpenFails \<Rightarrow> (fs, Inl OSError)
               | WriteFails k \<Rightarrow> (fs(full \<mapsto> File (take k binary)), Inl OSError))))"

subsection \<open>Sequential names\<close>

definition max_attempts :: nat where
  "max_attempts = 10000"

definition candidate_name :: "string \<Rightarrow> int \<Rightarrow> string \<Rightarrow> string" where
  \<comment> \<open>\<^verbatim>\<open>f"{base_prefix}-{n}.{ext}"\<close>\<close>
  "candidate_name base_prefix n ext = base_prefix @ ''-'' @ str_int n @ ''.'' @ ext"

definition exhausted :: py_exc where
  "exhausted = HTTPException 500
     (''N'' @ [a_tilde] @ ''o foi poss'' @ [i_acute] @ ''vel gerar nome '' @ [u_acute] @ ''nico'')"

definition probe :: "fs \<Rightarrow> string \<Rightarrow> string \<Rightarrow> fs \<times> (py_exc + unit)" where
  \<comment> \<open>the body of the \<^verbatim>\<open>try\<close>: create the file exclusively, then remove it\<close>
  "probe fs dir_path full =
     (case open_x fs dir_path full of
        Inl e \<Rightarrow> (fs, Inl e)
      | Inr fs1 \<Rightarrow>
          (case os_unlink fs1 full of
             Inl e \<Rightarrow> (fs1, Inl e)
           | Inr fs2 \<Rightarrow> (fs2, Inr ())))"

function name_loop ::
    "fs \<Rightarrow> string \<Rightarrow> string \<Rightarrow> string \<Rightarrow> int \<Rightarrow> nat \<Rightarrow> fs \<times> (py_exc + string)" where
  "name_loop fs dir_path base_prefix ext n attempts =
     (if attempts < max_attempts then
        (let candidate = candidate_name base_prefix n ext;
             full = os_path_join dir_path candidate
         in if \<not> os_path_exists fs full then
              (case probe fs dir_path full of
                 (fs', Inr _) \<Rightarrow> (fs', Inr candidate)
               | (fs', Inl e) \<Rightarrow>
                   if e = FileExistsError
                   then name_loop fs' dir_path base_prefix ext (n + 1) (attempts + 1)
                   else (fs', Inl e))
            else name_loop fs dir_path base_prefix ext (n + 1) (attempts + 1))
      else (fs, Inl exhausted))"
  by pat_completeness auto
termination
  by (relation "measure (\<lambda>(fs, dir_path, base_prefix, ext, n, attempts). max_attempts - attempts)")
     auto

declare name_loop.simps [simp del]

definition next_sequential_name ::
    "fs \<Rightarrow> string \<Rightarrow> string \<Rightarrow> string \<Rightarrow> int \<Rightarrow> fs \<times> (py_exc + string)" where
  "next_sequential_name fs dir_path base_prefix ext start =
     (case (if \<not> os_path_exists fs dir_path then os_makedirs fs dir_path else Inr fs) of
        Inl e \<Rightarrow> (fs, Inl e)
      | Inr fs1 \<Rightarrow> name_loop fs1 dir_path base_prefix ext (max 1 start) 0)"

subsection \<open>The upload handler\<close>

record UploadIn =
  filename :: string
  data_url :: string
  registro :: "int option"
  ponto :: "int option"

record response =
  r_link :: string
  r_mime :: string
  r_size :: nat
  r_registro :: "int option"
  r_ponto :: "int option"
  r_path :: string
  r_filename :: string

definition is_safe_char :: "char \<Rightarrow> bool" where
  \<comment> \<open>what \<^verbatim>\<open>re.sub(r'[^\w\-_\.]', '', filename)\<close> keeps\<close>
  "is_safe_char c = (is_word c \<or> c = CHR ''-'' \<or> c = CHR ''_'' \<or> c = CHR ''.'')"

definition sanitize :: "string \<Rightarrow> string \<Rightarrow> string" where
  \<comment> \<open>lines 206 to 210: the sanitized file name\<close>
  "sanitize payload_filename ext_by_mime =
     (let filename = os_path_basename
            (if payload_filename \<noteq> [] then payload_filename else ''upload.'' @ ext_by_mime);
          filename = filter is_safe_char filename
      in if filename = [] then ''upload.'' @ ext_by_mime else filename)"

definition FILENAME_RE_match :: "string \<Rightarrow> (string \<times> string \<times> string) option" where
  \<comment> \<open>\<^verbatim>\<open>^(?P<registro>\d+)-(?P<ponto>\d+)\.(?P<ext>jpg|jpeg|png|webp)$\<close>, ignoring case\<close>
  "FILENAME_RE_match s =
     (let d1 = takeWhile is_digit s; r1 = dropWhile is_digit s in
      if d1 \<noteq> [] \<and> r1 \<noteq> [] \<and> hd r1 = CHR ''-'' then
        (let d2 = takeWhile is_digit (tl r1); r2 = dropWhile is_digit (tl r1) in
         if d2 \<noteq> [] \<and> r2 \<noteq> [] \<and> hd r2 = CHR ''.'' then
           (let e = strip_final_newline (tl r2) in
            if lower e \<in> {''jpg'', ''jpeg'', ''png'', ''webp''} then Some (d1, d2, e) else None)
         else None)
      else None)"

text \<open>
  The handler is modelled in two steps, so that the filesystem between the choice of the
  name and the write is a value: \<open>upload_locate\<close> is lines 196 to 250 (validation, decoding,
  identifiers, directory, final name), \<open>upload_write\<close> is lines 252 to 279 (the write and the
  response). \<open>upload\<close> runs one after the other under the handler's outer \<^verbatim>\<open>except\<close>
  clauses. The random prefix \<^verbatim>\<open>uuid.uuid4().hex\<close> and the outcome of the write are inputs.
\<close>

record located =
  l_mime :: string
  l_binary :: "byte list"
  l_registro :: "int option"
  l_ponto :: "int option"
  l_dir_path :: string
  l_final_name :: string

definition resolve_ids :: "UploadIn \<Rightarrow> string \<Rightarrow> int option \<times> int option" where
  \<comment> \<open>lines 212 to 221: the identifiers of the request, filled in from the file name\<close>
  "resolve_ids payload fname =
     (case FILENAME_RE_match (lower fname) of
        None \<Rightarrow> (registro payload, ponto payload)
      | Some (g_registro, g_ponto, g_ext) \<Rightarrow>
          ((case registro payload of None \<Rightarrow> Some (int_of_digits g_registro) | Some r \<Rightarrow> Some r),
           (case ponto payload of None \<Rightarrow> Some (int_of_digits g_ponto) | Some p \<Rightarrow> Some p)))"

definition storage_target :: "config \<Rightarrow> string \<Rightarrow> int option \<Rightarrow> string \<times> string" where
  \<comment> \<open>lines 224 to 231: \<open>dir_path\<close> and \<open>base_prefix\<close>\<close>
  "storage_target cfg uuid_hex reg =
     (case reg of
        None \<Rightarrow> (os_path_join (IMAGES_ROOT cfg) ''misc'', take 8 uuid_hex)
      | Some r \<Rightarrow> (os_path_join (IMAGES_ROOT cfg) (str_int r), str_int r))"

definition choose_final_name ::
    "fs \<Rightarrow> string \<Rightarrow> string \<Rightarrow> string \<Rightarrow> int option \<Rightarrow> fs \<times> (py_exc + string)" where
  \<comment> \<open>lines 240 to 248\<close>
  "choose_final_name fs dir_path base_prefix ext_by_mime pon =
     (case pon of
        Some p \<Rightarrow>
          (let tentative_name = candidate_name base_prefix p ext_by_mime;
               full_path = os_path_join dir_path tentative_name
           in if os_path_exists fs full_path
              then next_sequential_name fs dir_path base_prefix ext_by_mime (p + 1)
              else (fs, Inr tentative_name))
      | None \<Rightarrow> next_sequential_name fs dir_path base_prefix ext_by_mime 1)"

definition upload_locate ::
    "config \<Rightarrow> string \<Rightarrow> fs \<Rightarrow> UploadIn \<Rightarrow> fs \<times> (py_exc + located)" where
  "upload_locate cfg uuid_hex fs payload =
     (if filename payload = [] \<or> data_url payload = []
      then (fs, Inl (HTTPException 400
              (''filename e data_url s'' @ [a_tilde] @ ''o obrigat'' @ [o_acute] @ ''rios'')))
      else case parse_data_url cfg (data_url payload) of
        Inl e \<Rightarrow> (fs, Inl e)
      | Inr (mime, binary) \<Rightarrow>
         (case ALLOWED_MIMES mime of
            None \<Rightarrow> (fs, Inl KeyError)
          | Some ext_by_mime \<Rightarrow>
             (case resolve_ids payload (sanitize (filename payload) ext_by_mime) of
                (reg, pon) \<Rightarrow>
                  if (case reg of None \<Rightarrow> False | Some r \<Rightarrow> r < 0)
                  then (fs, Inl (HTTPException 400 (''registro '' @ invalido)))
                  else
                   (case storage_target cfg uuid_hex reg of
                      (dir_path, base_prefix) \<Rightarrow>
                        (case os_makedirs fs dir_path of
                           Inl e \<Rightarrow> (fs, Inl e)
                         | Inr fs1 \<Rightarrow>
                             if (case pon of None \<Rightarrow> False | Some p \<Rightarrow> p < 0)
                             then (fs1, Inl (HTTPException 400 (''ponto '' @ invalido)))
                             else
                              (case choose_final_name fs1 dir_path base_prefix ext_by_mime pon of
                                 (fs2, Inl e) \<Rightarrow> (fs2, Inl e)
                               | (fs2, Inr final_name) \<Rightarrow>
                                   (fs2, Inr \<lparr>l_mime = mime, l_binary = binary,
                                     l_registro = reg, l_ponto = pon, l_dir_path = dir_path,
                                     l_final_name = final_name\<rparr>)))))))"

definition upload_write ::
    "config \<Rightarrow> write_outcome \<Rightarrow> fs \<Rightarrow> located \<Rightarrow> request \<Rightarrow> fs \<times> (py_exc + response)" where
  "upload_write cfg outcome fs loc request =
     (let full_path = os_path_join (l_dir_path loc) (l_final_name loc) in
      case open_wb_write outcome fs (l_dir_path loc) full_path (l_binary loc) of
        (fs', Inl e) \<Rightarrow>
          (fs', Inl (if is_OSError e then HTTPException 500 ''Erro ao salvar arquivo'' else e))
      | (fs', Inr _) \<Rightarrow>
          (let rel_url = (case l_registro loc of
                   None \<Rightarrow> ''/imagens/misc/'' @ l_final_name loc
                 | Some r \<Rightarrow> ''/imagens/'' @ str_int r @ ''/'' @ l_final_name loc);
               base = get_base_url cfg request;
               link = base @ rel_url
           in (fs', Inr \<lparr>r_link = link, r_mime = l_mime loc, r_size = length (l_binary loc),
                         r_registro = l_registro loc, r_ponto = l_ponto loc, r_path = rel_url,
                         r_filename = l_final_name loc\<rparr>)))"

definition outer_except :: "py_exc \<Rightarrow> py_exc" where
  \<comment> \<open>\<^verbatim>\<open>except HTTPException: raise\<close>, \<^verbatim>\<open>except Exception\<close>: status 500\<close>
  "outer_except e =
     (case e of HTTPException s d \<Rightarrow> e | _ \<Rightarrow> HTTPException 500 ''Erro interno do servidor'')"

definition upload ::
    "config \<Rightarrow> string \<Rightarrow> write_outcome \<Rightarrow> fs \<Rightarrow> UploadIn \<Rightarrow> request \<Rightarrow> fs \<times> (py_exc + response)" where
  "upload cfg uuid_hex outcome fs payload request =
     (case upload_locate cfg uuid_hex fs payload of
        (fs1, Inl e) \<Rightarrow> (fs1, Inl (outer_except e))
      | (fs1, Inr loc) \<Rightarrow>
          (case upload_write cfg outcome fs1 loc request of
             (fs2, Inl e) \<Rightarrow> (fs2, Inl (outer_except e))
           | (fs2, Inr resp) \<Rightarrow> (fs2, Inr resp)))"

subsection \<open>Concrete inputs and the specification's wording\<close>

definition cfg_default :: config where
  \<comment> \<open>no \<^verbatim>\<open>BASE_URL\<close>, \<^verbatim>\<open>MAX_SIZE_MB\<close> at its default\<close>
  "cfg_default = \<lparr>IMAGES_ROOT = ''/app/imagens'', BASE_URL_ENV = None, MAX_SIZE_MB = 25\<rparr>"

definition forwarded_request :: "string \<Rightarrow> string \<Rightarrow> string \<Rightarrow> request" where
  \<comment> \<open>a request that came through a proxy setting the three forwarding headers\<close>
  "forwarded_request proto host port =
     \<lparr>headers = [''x-forwarded-proto'' \<mapsto> proto, ''x-forwarded-host'' \<mapsto> host,
                  ''x-forwarded-port'' \<mapsto> port],
      url_scheme = ''http'', base_url = ''http://10.0.0.2:8002/''\<rparr>"

definition forwarded_scheme :: "request \<Rightarrow> string" where
  \<comment> \<open>\<^verbatim>\<open>f_proto or request.url.scheme\<close>\<close>
  "forwarded_scheme request =
     (case headers request ''x-forwarded-proto'' of
        None \<Rightarrow> url_scheme request
      | Some p \<Rightarrow> if p \<noteq> [] then p else url_scheme request)"

definition spec_forwarded_origin :: "string \<Rightarrow> string \<Rightarrow> string option \<Rightarrow> string" where
  \<comment> \<open>the specification's rule: the port is appended when it is present, not already in the
     host, and not the default port of the scheme\<close>
  "spec_forwarded_origin scheme host f_port =
     scheme @ ''://'' @ host @
       (case f_port of
          None \<Rightarrow> []
        | Some port \<Rightarrow>
            if CHR '':'' \<notin> set host \<and>
               \<not> ((scheme = ''http'' \<and> port = ''80'') \<or> (scheme = ''https'' \<and> port = ''443''))
            then '':'' @ port else [])"

definition crowded_fs :: "string \<Rightarrow> string \<Rightarrow> string \<Rightarrow> int \<Rightarrow> int \<Rightarrow> fs" where
  \<comment> \<open>a directory in which every candidate name numbered \<open>lo\<close> to \<open>hi\<close> is taken\<close>
  "crowded_fs dir_path base_prefix ext lo hi =
     (\<lambda>p. if p = dir_path then Some Dir
          else if \<exists>n \<in> {lo..hi}. p = os_path_join dir_path (candidate_name base_prefix n ext)
          then Some (File []) else None)"

definition fs_two :: fs where
  \<comment> \<open>the directory of registro 5 holding its points 1 and 2\<close>
  "fs_two = [''/app/imagens/5'' \<mapsto> Dir, ''/app/imagens/5/5-1.jpg'' \<mapsto> File [1],
             ''/app/imagens/5/5-2.jpg'' \<mapsto> File [2]]"

definition uuid_example :: string where
  \<comment> \<open>a value of \<^verbatim>\<open>uuid.uuid4().hex\<close>\<close>
  "uuid_example = ''0123456789abcdef0123456789abcdef''"

definition req_plain :: request where
  \<comment> \<open>a request that reached the service directly\<close>
  "req_plain = \<lparr>headers = Map.empty, url_scheme = ''http'', base_url = ''http://localhost:8002/''\<rparr>"

definition payload_ids :: "string \<Rightarrow> int option \<Rightarrow> int option \<Rightarrow> UploadIn" where
  \<comment> \<open>a request body carrying the three bytes \<^verbatim>\<open>Man\<close> as a JPEG data URL\<close>
  "payload_ids name reg pon =
     \<lparr>filename = name, data_url = ''data:image/jpeg;base64,TWFu'', registro = reg, ponto = pon\<rparr>"

definition same_files :: "fs \<Rightarrow> fs \<Rightarrow> bool" where
  \<comment> \<open>the two states hold the same regular files with the same contents\<close>
  "same_files fs' fs = (\<forall>p b. fs' p = Some (File b) \<longleftrightarrow> fs p = Some (File b))"

definition payload_other :: UploadIn where
  \<comment> \<open>a second request for registro 5, carrying the bytes \<^verbatim>\<open>Mau\<close>\<close>
  "payload_other =
     \<lparr>filename = ''outra.jpg'', data_url = ''data:image/jpeg;base64,TWF1'',
      registro = Some 5, ponto = None\<rparr>"

definition a2b_start :: "byte list \<Rightarrow> a2b_state" where
  \<comment> \<open>the decoder's state at the start of a quad, with \<open>out\<close> decoded so far\<close>
  "a2b_start out =
     \<lparr>quad_pos = 0, leftchar = 0, pads = 0, padding_started = False, bin_data = out\<rparr>"

definition cfg_tiny :: config where
  \<comment> \<open>\<^verbatim>\<open>MAX_SIZE_MB=0\<close>: every non-empty payload is too large\<close>
  "cfg_tiny = \<lparr>IMAGES_ROOT = ''/app/imagens'', BASE_URL_ENV = None, MAX_SIZE_MB = 0\<rparr>"

definition big_binary :: "byte list" where
  \<comment> \<open>37.5 MiB of zero bytes: above the default limit, and its base64 text is 50 MiB\<close>
  "big_binary = replicate 39321600 0"

definition big_payload :: UploadIn where
  \<comment> \<open>a well-formed PNG data URL of \<open>big_binary\<close>, 22 characters longer than 50 MiB\<close>
  "big_payload =
     \<lparr>filename = ''foto.png'', data_url = ''data:image/png;base64,'' @ b64encode big_binary,
      registro = None, ponto = None\<rparr>"

section \<open>Properties\<close>

subsection \<open>The base URL behind a proxy\<close>

text \<open>
  C4, as stated, fails: with scheme \<^verbatim>\<open>https\<close> and \<^verbatim>\<open>X-Forwarded-Port: 80\<close> the port is
  not the default port of the scheme, so the specification's rule appends it, while
  \<^verbatim>\<open>get_base_url\<close> leaves out both 80 and 443 whatever the scheme.
\<close>

theorem get_base_url_port_counterexample:
  "get_base_url cfg_default (forwarded_request ''https'' ''example.com'' ''80'')
     \<noteq> spec_forwarded_origin ''https'' ''example.com'' (Some ''80'')"
  by (simp add: get_base_url_def cfg_default_def forwarded_request_def spec_forwarded_origin_def)

text \<open>
  C4, amended: when no static base URL is configured and a non-empty forwarded host is
  present, the origin is the forwarded proto (or the connection's own scheme when that
  header is absent or empty), then \<^verbatim>\<open>://\<close>, then the forwarded host; the forwarded port is
  appended if and only if the port header is present and non-empty, the host contains no
  colon, and the port is neither \<^verbatim>\<open>80\<close> nor \<^verbatim>\<open>443\<close>, whatever the scheme.
\<close>

theorem get_base_url_forwarded:
  assumes "BASE_URL_ENV cfg = None \<or> BASE_URL_ENV cfg = Some []"
    and "headers request ''x-forwarded-host'' = Some host"
    and "host \<noteq> []"
  shows "get_base_url cfg request =
           forwarded_scheme request @ ''://'' @ host @
             (case headers request ''x-forwarded-port'' of
                None \<Rightarrow> []
              | Some port \<Rightarrow>
                  if port \<noteq> [] \<and> CHR '':'' \<notin> set host \<and> port \<noteq> ''80'' \<and> port \<noteq> ''443''
                  then '':'' @ port else [])"
  using assms
  by (auto simp: get_base_url_def forwarded_scheme_def Let_def split: option.splits)

theorem get_base_url_forwarded_witness:
  "BASE_URL_ENV cfg_default = None
   \<and> headers (forwarded_request ''https'' ''example.com'' ''443'') ''x-forwarded-host''
       = Some ''example.com''
   \<and> get_base_url cfg_default (forwarded_request ''https'' ''example.com'' ''443'')
       = ''https://example.com''
   \<and> get_base_url cfg_default (forwarded_request ''https'' ''example.com'' ''8443'')
       = ''https://example.com:8443''"
  using get_base_url_forwarded
          [of cfg_default "forwarded_request ''https'' ''example.com'' ''443''" "''example.com''"]
        get_base_url_forwarded
          [of cfg_default "forwarded_request ''https'' ''example.com'' ''8443''" "''example.com''"]
  by (simp add: cfg_default_def forwarded_request_def forwarded_scheme_def)

subsection \<open>The sequential namer\<close>

lemma probe_free:
  assumes "\<not> os_path_exists fs full"
  shows "probe fs dir_path full =
           (fs, case fs dir_path of
                  None \<Rightarrow> Inl FileNotFoundError
                | Some Dir \<Rightarrow> Inr ()
                | Some (File b) \<Rightarrow> Inl NotADirectoryError)"
proof -
  from assms have none: "fs full = None"
    by (simp add: os_path_exists_def)
  then have "(fs(full \<mapsto> File []))(full := None) = fs"
    by (simp add: fun_upd_idem)
  with none show ?thesis
    by (simp add: probe_def open_x_def os_unlink_def split: option.splits node.splits)
qed

lemma name_loop_exhausted:
  "name_loop fs dir_path base_prefix ext n max_attempts = (fs, Inl exhausted)"
  by (subst name_loop.simps) simp

lemma name_loop_free:
  assumes "attempts < max_attempts" and "fs dir_path = Some Dir"
    and "\<not> os_path_exists fs (os_path_join dir_path (candidate_name base_prefix n ext))"
  shows "name_loop fs dir_path base_prefix ext n attempts
           = (fs, Inr (candidate_name base_prefix n ext))"
  using assms by (simp add: name_loop.simps [of fs dir_path base_prefix ext n attempts] probe_free)

lemma name_loop_occupied:
  assumes "attempts < max_attempts"
    and "os_path_exists fs (os_path_join dir_path (candidate_name base_prefix n ext))"
  shows "name_loop fs dir_path base_prefix ext n attempts
           = name_loop fs dir_path base_prefix ext (n + 1) (attempts + 1)"
  using assms by (simp add: name_loop.simps [of fs dir_path base_prefix ext n attempts])

lemma name_loop_skip:
  assumes "attempts + k \<le> max_attempts"
    and "\<forall>j<k. os_path_exists fs
           (os_path_join dir_path (candidate_name base_prefix (n + int j) ext))"
  shows "name_loop fs dir_path base_prefix ext n attempts
           = name_loop fs dir_path base_prefix ext (n + int k) (attempts + k)"
  using assms
proof (induction k arbitrary: n attempts)
  case 0
  then show ?case by simp
next
  case (Suc k)
  from Suc.prems have occ: "os_path_exists fs
      (os_path_join dir_path (candidate_name base_prefix n ext))"
    using Suc.prems(2) [rule_format, of 0] by simp
  have rest: "\<forall>j<k. os_path_exists fs
      (os_path_join dir_path (candidate_name base_prefix ((n + 1) + int j) ext))"
  proof (intro allI impI)
    fix j assume "j < k"
    then have "Suc j < Suc k" by simp
    with Suc.prems(2) have "os_path_exists fs
      (os_path_join dir_path (candidate_name base_prefix (n + int (Suc j)) ext))"
      by blast
    moreover have "n + int (Suc j) = (n + 1) + int j" by simp
    ultimately show "os_path_exists fs
      (os_path_join dir_path (candidate_name base_prefix ((n + 1) + int j) ext))"
      by (simp only:)
  qed
  from Suc.prems(1) have lt: "attempts < max_attempts" and le: "(attempts + 1) + k \<le> max_attempts"
    by simp_all
  have "name_loop fs dir_path base_prefix ext n attempts
          = name_loop fs dir_path base_prefix ext (n + 1) (attempts + 1)"
    using lt occ by (rule name_loop_occupied)
  also have "\<dots> = name_loop fs dir_path base_prefix ext ((n + 1) + int k) ((attempts + 1) + k)"
    using le rest by (rule Suc.IH)
  also have "(n + 1) + int k = n + int (Suc k)" by simp
  also have "(attempts + 1) + k = attempts + Suc k" by simp
  finally show ?case .
qed

lemma str_int_digits:
  "str_int 0 = ''0''" "str_int 1 = ''1''" "str_int 2 = ''2''" "str_int 3 = ''3''"
  "str_int 4 = ''4''" "str_int 5 = ''5''" "str_int 42 = ''42''"
  by code_simp+

text \<open>
  C2: from any state in which \<open>dir_path\<close> is a directory or absent, \<open>next_sequential_name\<close>
  creates the directory if need be, starts at \<open>s = max 1 start\<close>, and returns the candidate
  \<open>base_prefix-(s+k).ext\<close> for the first \<open>k\<close> below 10000 whose name is free, every earlier
  candidate \<open>s\<close>, \<open>s+1\<close>, ... being taken; when all 10000 candidates are taken it raises an
  \<open>HTTPException\<close> of status 500. The function is total: the loop is bounded by its counter.
\<close>

theorem next_sequential_name_first_free:
  assumes "\<forall>b. fs dir_path \<noteq> Some (File b)"
    and "fs1 = fs(dir_path \<mapsto> Dir)"
    and "s = max 1 start"
  shows "((\<forall>j<k. os_path_exists fs1
              (os_path_join dir_path (candidate_name base_prefix (s + int j) ext))) \<and>
          k < 10000 \<and>
          \<not> os_path_exists fs1
              (os_path_join dir_path (candidate_name base_prefix (s + int k) ext))
          \<longrightarrow> next_sequential_name fs dir_path base_prefix ext start
                = (fs1, Inr (candidate_name base_prefix (s + int k) ext)))
       \<and> ((\<forall>j<10000. os_path_exists fs1
              (os_path_join dir_path (candidate_name base_prefix (s + int j) ext)))
          \<longrightarrow> (\<exists>detail. next_sequential_name fs dir_path base_prefix ext start
                = (fs1, Inl (HTTPException 500 detail))))"
proof -
  have dir: "fs1 dir_path = Some Dir"
    using assms(2) by simp
  have start: "next_sequential_name fs dir_path base_prefix ext start
                 = name_loop fs1 dir_path base_prefix ext s 0"
  proof (cases "fs dir_path")
    case None
    then show ?thesis
      using assms(2,3)
      by (simp add: next_sequential_name_def os_path_exists_def os_makedirs_def)
  next
    case (Some nd)
    with assms(1) have "nd = Dir" by (cases nd) auto
    with Some have "fs1 = fs"
      using assms(2) by (simp add: fun_upd_idem)
    with Some show ?thesis
      using assms(3) by (simp add: next_sequential_name_def os_path_exists_def)
  qed
  have found: "next_sequential_name fs dir_path base_prefix ext start
                 = (fs1, Inr (candidate_name base_prefix (s + int k) ext))"
    if occ: "\<forall>j<k. os_path_exists fs1
              (os_path_join dir_path (candidate_name base_prefix (s + int j) ext))"
      and k: "k < 10000"
      and free: "\<not> os_path_exists fs1
              (os_path_join dir_path (candidate_name base_prefix (s + int k) ext))"
  proof -
    from k have "0 + k \<le> max_attempts" by (simp add: max_attempts_def)
    from name_loop_skip [OF this occ]
    have "name_loop fs1 dir_path base_prefix ext s 0
            = name_loop fs1 dir_path base_prefix ext (s + int k) k"
      by simp
    also have "\<dots> = (fs1, Inr (candidate_name base_prefix (s + int k) ext))"
      using k dir free by (intro name_loop_free) (simp_all add: max_attempts_def)
    finally show ?thesis using start by simp
  qed
  have none: "next_sequential_name fs dir_path base_prefix ext start = (fs1, Inl exhausted)"
    if occ: "\<forall>j<10000. os_path_exists fs1
              (os_path_join dir_path (candidate_name base_prefix (s + int j) ext))"
  proof -
    have "0 + max_attempts \<le> max_attempts" by simp
    moreover from occ have "\<forall>j<max_attempts. os_path_exists fs1
              (os_path_join dir_path (candidate_name base_prefix (s + int j) ext))"
      by (simp add: max_attempts_def)
    ultimately have "name_loop fs1 dir_path base_prefix ext s 0
            = name_loop fs1 dir_path base_prefix ext (s + int max_attempts) (0 + max_attempts)"
      by (rule name_loop_skip)
    then show ?thesis
      using start by (simp add: name_loop_exhausted)
  qed
  from found none show ?thesis
    by (auto simp: exhausted_def)
qed

lemma crowded_fs_occupied:
  "lo \<le> n \<Longrightarrow> n \<le> hi \<Longrightarrow>
   os_path_exists (crowded_fs dir_path base_prefix ext lo hi)
     (os_path_join dir_path (candidate_name base_prefix n ext))"
  by (auto simp: os_path_exists_def crowded_fs_def)

theorem next_sequential_name_first_free_witness:
  "next_sequential_name fs_two ''/app/imagens/5'' ''5'' ''jpg'' 0 = (fs_two, Inr ''5-3.jpg'')
   \<and> (\<exists>detail. next_sequential_name (crowded_fs ''/app/imagens/5'' ''5'' ''jpg'' 1 10000)
         ''/app/imagens/5'' ''5'' ''jpg'' 1
        = (crowded_fs ''/app/imagens/5'' ''5'' ''jpg'' 1 10000, Inl (HTTPException 500 detail)))"
proof -
  have a: "\<forall>b. fs_two ''/app/imagens/5'' \<noteq> Some (File b)"
    by (simp add: fs_two_def)
  have b: "fs_two = fs_two(''/app/imagens/5'' \<mapsto> Dir)"
    by (rule ext) (simp add: fs_two_def)
  have c: "(1::int) = max 1 0" by simp
  have occ: "\<forall>j<2. os_path_exists fs_two
      (os_path_join ''/app/imagens/5'' (candidate_name ''5'' (1 + int j) ''jpg''))"
    by (simp add: less_2_cases_iff os_path_exists_def os_path_join_def candidate_name_def
        str_int_digits fs_two_def)
  have free: "\<not> os_path_exists fs_two
      (os_path_join ''/app/imagens/5'' (candidate_name ''5'' (1 + int 2) ''jpg''))"
    by (simp add: os_path_exists_def os_path_join_def candidate_name_def
        str_int_digits fs_two_def)
  let ?cr = "crowded_fs ''/app/imagens/5'' ''5'' ''jpg'' 1 10000"
  have a': "\<forall>b. ?cr ''/app/imagens/5'' \<noteq> Some (File b)"
    by (simp add: crowded_fs_def)
  have b': "?cr = ?cr(''/app/imagens/5'' \<mapsto> Dir)"
    by (rule ext) (simp add: crowded_fs_def)
  have c': "(1::int) = max 1 1" by simp
  have occ': "\<forall>j<10000. os_path_exists ?cr
      (os_path_join ''/app/imagens/5'' (candidate_name ''5'' (1 + int j) ''jpg''))"
    by (intro allI impI crowded_fs_occupied) simp_all
  from next_sequential_name_first_free [OF a b c, of 2 "''5''" "''jpg''"] occ free
       next_sequential_name_first_free [OF a' b' c', of 0 "''5''" "''jpg''"] occ'
  show ?thesis
    by (simp add: candidate_name_def str_int_digits)
qed

lemma name_loop_result:
  assumes "fs dir_path = Some Dir"
  shows "name_loop fs dir_path base_prefix ext n attempts = (fs, Inl exhausted)
       \<or> (\<exists>m\<ge>n. name_loop fs dir_path base_prefix ext n attempts
                    = (fs, Inr (candidate_name base_prefix m ext))
              \<and> \<not> os_path_exists fs (os_path_join dir_path (candidate_name base_prefix m ext)))"
proof (induction "max_attempts - attempts" arbitrary: n attempts)
  case 0
  then have "\<not> attempts < max_attempts" by simp
  then have "name_loop fs dir_path base_prefix ext n attempts = (fs, Inl exhausted)"
    by (subst name_loop.simps) simp
  then show ?case by simp
next
  case (Suc d)
  then have lt: "attempts < max_attempts" by simp
  show ?case
  proof (cases "os_path_exists fs (os_path_join dir_path (candidate_name base_prefix n ext))")
    case True
    from Suc.hyps(2) have "d = max_attempts - (attempts + 1)" by simp
    from Suc.hyps(1) [OF this, of "n + 1"]
    consider "name_loop fs dir_path base_prefix ext (n + 1) (attempts + 1) = (fs, Inl exhausted)"
      | m where "n + 1 \<le> m"
          "name_loop fs dir_path base_prefix ext (n + 1) (attempts + 1)
             = (fs, Inr (candidate_name base_prefix m ext))"
          "\<not> os_path_exists fs (os_path_join dir_path (candidate_name base_prefix m ext))"
      by auto
    then show ?thesis
    proof cases
      case 1
      then show ?thesis
        by (simp add: name_loop_occupied [OF lt True])
    next
      case 2
      then show ?thesis
        by (intro disjI2 exI [of _ m]) (simp add: name_loop_occupied [OF lt True])
    qed
  next
    case False
    from name_loop_free [of attempts fs dir_path base_prefix n ext] lt assms False show ?thesis
      by auto
  qed
qed

lemma os_makedirs_Inr:
  assumes "os_makedirs fs p = Inr fs1"
  shows "fs1 p = Some Dir" and "fs1 = fs(p \<mapsto> Dir)" and "\<forall>b. fs p \<noteq> Some (File b)"
  using assms
  by (auto simp: os_makedirs_def fun_upd_idem split: option.splits node.splits)

lemma os_makedirs_Inl:
  "os_makedirs fs p = Inl e \<Longrightarrow> e = FileExistsError"
  by (auto simp: os_makedirs_def split: option.splits node.splits)

lemma next_sequential_name_result:
  assumes "fs dir_path = Some Dir"
  shows "next_sequential_name fs dir_path base_prefix ext start = (fs, Inl exhausted)
       \<or> (\<exists>m\<ge>max 1 start. next_sequential_name fs dir_path base_prefix ext start
                    = (fs, Inr (candidate_name base_prefix m ext))
              \<and> \<not> os_path_exists fs (os_path_join dir_path (candidate_name base_prefix m ext)))"
proof -
  have "next_sequential_name fs dir_path base_prefix ext start
          = name_loop fs dir_path base_prefix ext (max 1 start) 0"
    using assms by (simp add: next_sequential_name_def os_path_exists_def)
  with assms name_loop_result [of fs dir_path base_prefix ext "max 1 start" 0] show ?thesis
    by simp
qed

lemma choose_final_name_result:
  assumes "fs dir_path = Some Dir" and "case pon of None \<Rightarrow> True | Some p \<Rightarrow> 0 \<le> p"
  shows "choose_final_name fs dir_path base_prefix ext pon = (fs, Inl exhausted)
       \<or> (\<exists>m\<ge>0. choose_final_name fs dir_path base_prefix ext pon
                    = (fs, Inr (candidate_name base_prefix m ext))
              \<and> \<not> os_path_exists fs (os_path_join dir_path (candidate_name base_prefix m ext))
              \<and> (case pon of
                    None \<Rightarrow> 1 \<le> m
                  | Some p \<Rightarrow>
                      if os_path_exists fs (os_path_join dir_path (candidate_name base_prefix p ext))
                      then p < m else m = p))"
proof (cases pon)
  case None
  from assms(1) next_sequential_name_result [of fs dir_path base_prefix ext 1]
  consider "next_sequential_name fs dir_path base_prefix ext 1 = (fs, Inl exhausted)"
    | m where "1 \<le> m"
        "next_sequential_name fs dir_path base_prefix ext 1
           = (fs, Inr (candidate_name base_prefix m ext))"
        "\<not> os_path_exists fs (os_path_join dir_path (candidate_name base_prefix m ext))"
    by auto
  then show ?thesis
  proof cases
    case 1
    with None show ?thesis by (simp add: choose_final_name_def)
  next
    case 2
    with None show ?thesis
      by (intro disjI2 exI [of _ m]) (simp add: choose_final_name_def)
  qed
next
  case (Some p)
  with assms(2) have p: "0 \<le> p" by simp
  show ?thesis
  proof (cases "os_path_exists fs (os_path_join dir_path (candidate_name base_prefix p ext))")
    case True
    from p have "max 1 (p + 1) = p + 1" by simp
    with assms(1) next_sequential_name_result [of fs dir_path base_prefix ext "p + 1"]
    consider "next_sequential_name fs dir_path base_prefix ext (p + 1) = (fs, Inl exhausted)"
      | m where "p + 1 \<le> m"
          "next_sequential_name fs dir_path base_prefix ext (p + 1)
             = (fs, Inr (candidate_name base_prefix m ext))"
          "\<not> os_path_exists fs (os_path_join dir_path (candidate_name base_prefix m ext))"
      by auto
    then show ?thesis
    proof cases
      case 1
      with Some True show ?thesis by (simp add: choose_final_name_def)
    next
      case 2
      with Some True p show ?thesis
        by (intro disjI2 exI [of _ m]) (simp add: choose_final_name_def)
    qed
  next
    case False
    with Some p show ?thesis
      by (intro disjI2 exI [of _ p]) (simp add: choose_final_name_def)
  qed
qed

subsection \<open>The handler, step by step\<close>

lemma upload_locate_Inr:
  assumes "upload_locate cfg uuid_hex fs payload = (fs2, Inr loc)"
  obtains mime binary ext reg pon dir_path base_prefix fs1 where
    "filename payload \<noteq> []" "data_url payload \<noteq> []"
    "parse_data_url cfg (data_url payload) = Inr (mime, binary)"
    "ALLOWED_MIMES mime = Some ext"
    "resolve_ids payload (sanitize (filename payload) ext) = (reg, pon)"
    "case reg of None \<Rightarrow> True | Some r \<Rightarrow> 0 \<le> r"
    "storage_target cfg uuid_hex reg = (dir_path, base_prefix)"
    "os_makedirs fs dir_path = Inr fs1"
    "case pon of None \<Rightarrow> True | Some p \<Rightarrow> 0 \<le> p"
    "choose_final_name fs1 dir_path base_prefix ext pon = (fs2, Inr (l_final_name loc))"
    "loc = \<lparr>l_mime = mime, l_binary = binary, l_registro = reg, l_ponto = pon,
            l_dir_path = dir_path, l_final_name = l_final_name loc\<rparr>"
  using assms
  unfolding upload_locate_def
  by (auto split: if_splits sum.splits option.splits prod.splits)

lemma upload_locate_reaches:
  assumes "filename payload \<noteq> []" "data_url payload \<noteq> []"
    "parse_data_url cfg (data_url payload) = Inr (mime, binary)"
    "ALLOWED_MIMES mime = Some ext"
    "resolve_ids payload (sanitize (filename payload) ext) = (reg, pon)"
    "case reg of None \<Rightarrow> True | Some r \<Rightarrow> 0 \<le> r"
    "storage_target cfg uuid_hex reg = (dir_path, base_prefix)"
    "os_makedirs fs dir_path = Inr fs1"
    "case pon of None \<Rightarrow> True | Some p \<Rightarrow> 0 \<le> p"
  shows "upload_locate cfg uuid_hex fs payload =
           (case choose_final_name fs1 dir_path base_prefix ext pon of
              (fs2, Inl e) \<Rightarrow> (fs2, Inl e)
            | (fs2, Inr final_name) \<Rightarrow>
                (fs2, Inr \<lparr>l_mime = mime, l_binary = binary, l_registro = reg, l_ponto = pon,
                           l_dir_path = dir_path, l_final_name = final_name\<rparr>))"
  using assms
  unfolding upload_locate_def
  by (auto split: if_splits sum.splits option.splits prod.splits)

lemma upload_write_ok:
  assumes "fs (l_dir_path loc) = Some Dir"
    and "fs (os_path_join (l_dir_path loc) (l_final_name loc)) = None"
  shows "upload_write cfg WriteOk fs loc request =
           (fs(os_path_join (l_dir_path loc) (l_final_name loc) \<mapsto> File (l_binary loc)),
            Inr \<lparr>r_link = get_base_url cfg request @
                    (case l_registro loc of
                       None \<Rightarrow> ''/imagens/misc/'' @ l_final_name loc
                     | Some r \<Rightarrow> ''/imagens/'' @ str_int r @ ''/'' @ l_final_name loc),
                  r_mime = l_mime loc, r_size = length (l_binary loc),
                  r_registro = l_registro loc, r_ponto = l_ponto loc,
                  r_path = (case l_registro loc of
                       None \<Rightarrow> ''/imagens/misc/'' @ l_final_name loc
                     | Some r \<Rightarrow> ''/imagens/'' @ str_int r @ ''/'' @ l_final_name loc),
                  r_filename = l_final_name loc\<rparr>)"
  using assms
  by (simp add: upload_write_def open_wb_write_def Let_def)

lemma upload_write_Inr:
  assumes "upload_write cfg outcome fs loc request = (fs', Inr resp)"
  shows "outcome = WriteOk"
    and "fs' = fs(os_path_join (l_dir_path loc) (l_final_name loc) \<mapsto> File (l_binary loc))"
    and "r_mime resp = l_mime loc" and "r_registro resp = l_registro loc"
    and "r_ponto resp = l_ponto loc" and "r_filename resp = l_final_name loc"
    and "r_size resp = length (l_binary loc)"
  using assms
  by (auto simp: upload_write_def open_wb_write_def Let_def
      split: option.splits node.splits write_outcome.splits prod.splits sum.splits)

lemma upload_Inr:
  assumes "upload cfg uuid_hex outcome fs payload request = (fs', Inr resp)"
  obtains fs2 loc where
    "upload_locate cfg uuid_hex fs payload = (fs2, Inr loc)"
    "upload_write cfg outcome fs2 loc request = (fs', Inr resp)"
  using assms
  by (auto simp: upload_def split: prod.splits sum.splits)

lemma upload_success:
  assumes "upload cfg uuid_hex outcome fs payload request = (fs', Inr resp)"
  obtains mime binary ext reg pon dir_path base_prefix fs1 m where
    "parse_data_url cfg (data_url payload) = Inr (mime, binary)"
    "ALLOWED_MIMES mime = Some ext"
    "resolve_ids payload (sanitize (filename payload) ext) = (reg, pon)"
    "storage_target cfg uuid_hex reg = (dir_path, base_prefix)"
    "os_makedirs fs dir_path = Inr fs1"
    "0 \<le> m"
    "\<not> os_path_exists fs1 (os_path_join dir_path (candidate_name base_prefix m ext))"
    "case pon of
       None \<Rightarrow> 1 \<le> m
     | Some p \<Rightarrow>
         if os_path_exists fs1 (os_path_join dir_path (candidate_name base_prefix p ext))
         then p < m else m = p"
    "fs' = fs1(os_path_join dir_path (candidate_name base_prefix m ext) \<mapsto> File binary)"
    "r_mime resp = mime" "r_registro resp = reg" "r_ponto resp = pon"
    "r_filename resp = candidate_name base_prefix m ext"
    "outcome = WriteOk"
    "case pon of None \<Rightarrow> True | Some p \<Rightarrow> 0 \<le> p"
proof -
  from assms obtain fs2 loc where
    loc: "upload_locate cfg uuid_hex fs payload = (fs2, Inr loc)" and
    wr: "upload_write cfg outcome fs2 loc request = (fs', Inr resp)"
    by (rule upload_Inr)
  from loc obtain mime binary ext reg pon dir_path base_prefix fs1 where st:
    "parse_data_url cfg (data_url payload) = Inr (mime, binary)"
    "ALLOWED_MIMES mime = Some ext"
    "resolve_ids payload (sanitize (filename payload) ext) = (reg, pon)"
    "storage_target cfg uuid_hex reg = (dir_path, base_prefix)"
    "os_makedirs fs dir_path = Inr fs1"
    "case pon of None \<Rightarrow> True | Some p \<Rightarrow> 0 \<le> p"
    "choose_final_name fs1 dir_path base_prefix ext pon = (fs2, Inr (l_final_name loc))"
    "loc = \<lparr>l_mime = mime, l_binary = binary, l_registro = reg, l_ponto = pon,
            l_dir_path = dir_path, l_final_name = l_final_name loc\<rparr>"
    by (rule upload_locate_Inr)
  from st(5) have dir: "fs1 dir_path = Some Dir"
    by (rule os_makedirs_Inr)
  from choose_final_name_result [of fs1 dir_path pon base_prefix ext] dir st(6) st(7)
  obtain m where m:
    "0 \<le> m" "fs2 = fs1" "l_final_name loc = candidate_name base_prefix m ext"
    "\<not> os_path_exists fs1 (os_path_join dir_path (candidate_name base_prefix m ext))"
    "case pon of
       None \<Rightarrow> 1 \<le> m
     | Some p \<Rightarrow>
         if os_path_exists fs1 (os_path_join dir_path (candidate_name base_prefix p ext))
         then p < m else m = p"
    by auto
  have fields: "l_mime loc = mime" "l_binary loc = binary" "l_registro loc = reg"
    "l_ponto loc = pon" "l_dir_path loc = dir_path"
    by (subst st(8), simp)+
  from upload_write_Inr [OF wr] fields m(2,3)
  have "outcome = WriteOk"
    "fs' = fs1(os_path_join dir_path (candidate_name base_prefix m ext) \<mapsto> File binary)"
    "r_mime resp = mime" "r_registro resp = reg" "r_ponto resp = pon"
    "r_filename resp = candidate_name base_prefix m ext"
    by simp_all
  with st(1-6) m(1,4,5) that show thesis
    by blast
qed

lemma str_nat_nonempty: "str_nat n \<noteq> []"
  by (subst str_nat.simps) simp

lemma digit_char_inj: "a < 10 \<Longrightarrow> b < 10 \<Longrightarrow> digit_char a = digit_char b \<Longrightarrow> a = b"
proof -
  assume a: "a < 10" and b: "b < 10" and eq: "digit_char a = digit_char b"
  from eq have "(of_char (digit_char a) :: nat) = of_char (digit_char b)"
    by simp
  then have "(48 + a) mod 256 = (48 + b) mod 256"
    by (simp add: digit_char_def)
  moreover from a have "(48 + a) mod 256 = 48 + a" by simp
  moreover from b have "(48 + b) mod 256 = 48 + b" by simp
  ultimately show "a = b" by linarith
qed

lemma digit_char_0: "digit_char 0 = CHR ''0''"
  by code_simp

lemma str_nat_zero: "str_nat n = ''0'' \<Longrightarrow> n = 0"
proof (cases "n < 10")
  case True
  assume "str_nat n = ''0''"
  with True have "digit_char n = digit_char 0"
    by (subst (asm) str_nat.simps) (simp add: digit_char_0)
  with True show ?thesis
    using digit_char_inj [of n 0] by simp
next
  case False
  assume "str_nat n = ''0''"
  with False have "str_nat (n div 10) @ [digit_char (n mod 10)] = ''0''"
    by (subst (asm) str_nat.simps) simp
  then have "str_nat (n div 10) = []"
    by (simp add: append_eq_Cons_conv)
  with str_nat_nonempty show ?thesis by blast
qed

lemma upload_5_2_eval:
  "case upload cfg_default uuid_example WriteOk fs_two
          (payload_ids ''foto.jpg'' (Some 5) (Some 2)) req_plain of
     (fs', Inr resp) \<Rightarrow>
       r_filename resp = ''5-3.jpg'' \<and> r_mime resp = ''image/jpeg'' \<and>
       r_registro resp = Some 5 \<and> r_ponto resp = Some 2 \<and>
       fs' ''/app/imagens/5/5-2.jpg'' = Some (File [2]) \<and>
       fs' ''/app/imagens/5/5-3.jpg'' = Some (File [77, 97, 110])
   | (fs', Inl e) \<Rightarrow> False"
  by code_simp

subsection \<open>The shape of stored names\<close>

text \<open>
  C6, as stated, fails: \<^verbatim>\<open>ponto\<close> is rejected only when negative, so a request with registro 5
  and ponto 0 on an empty tree is stored as \<^verbatim>\<open>5-0.jpg\<close>, whose number is not positive.
\<close>

theorem upload_ponto_zero_counterexample:
  "(case upload cfg_default uuid_example WriteOk Map.empty
           (payload_ids ''foto.jpg'' (Some 5) (Some 0)) req_plain of
      (fs', Inr resp) \<Rightarrow>
        r_filename resp = ''5-0.jpg'' \<and>
        fs' ''/app/imagens/5/5-0.jpg'' = Some (File [77, 97, 110])
    | (fs', Inl e) \<Rightarrow> False)
   \<and> \<not> (\<exists>n\<ge>1. ''5-0.jpg'' = candidate_name ''5'' n ''jpg'')"
proof
  show "case upload cfg_default uuid_example WriteOk Map.empty
           (payload_ids ''foto.jpg'' (Some 5) (Some 0)) req_plain of
      (fs', Inr resp) \<Rightarrow>
        r_filename resp = ''5-0.jpg'' \<and>
        fs' ''/app/imagens/5/5-0.jpg'' = Some (File [77, 97, 110])
    | (fs', Inl e) \<Rightarrow> False"
    by code_simp
  show "\<not> (\<exists>n\<ge>1. ''5-0.jpg'' = candidate_name ''5'' n ''jpg'')"
  proof
    assume "\<exists>n\<ge>1. ''5-0.jpg'' = candidate_name ''5'' n ''jpg''"
    then obtain n :: int where n: "1 \<le> n" "''5-0.jpg'' = candidate_name ''5'' n ''jpg''"
      by blast
    then have "str_nat (nat n) = ''0''"
      by (simp add: candidate_name_def str_int_def)
    then have "nat n = 0" by (rule str_nat_zero)
    with n(1) show False by simp
  qed
qed

text \<open>
  C6, amended: every file persisted by a successful upload is stored in the directory of the
  request under the name \<open>base_prefix-n.ext\<close>, where \<open>ext\<close> is the extension of the MIME type
  and \<open>n\<close> is a non-negative integer: \<open>n\<close> is the ponto itself (which may be 0) when a ponto
  is known and its name is free, and otherwise \<open>n\<close> is at least 1 and greater than the ponto.
\<close>

theorem upload_file_name_shape:
  assumes "upload cfg uuid_hex outcome fs payload request = (fs', Inr resp)"
  shows "\<exists>binary ext dir_path base_prefix n.
           parse_data_url cfg (data_url payload) = Inr (r_mime resp, binary)
         \<and> ALLOWED_MIMES (r_mime resp) = Some ext
         \<and> storage_target cfg uuid_hex (r_registro resp) = (dir_path, base_prefix)
         \<and> r_filename resp = candidate_name base_prefix n ext
         \<and> fs' (os_path_join dir_path (r_filename resp)) = Some (File binary)
         \<and> 0 \<le> n
         \<and> (case r_ponto resp of None \<Rightarrow> 1 \<le> n | Some p \<Rightarrow> n = p \<or> (p < n \<and> 1 \<le> n))"
proof -
  from assms obtain mime binary ext reg pon dir_path base_prefix fs1 m where st:
    "parse_data_url cfg (data_url payload) = Inr (mime, binary)"
    "ALLOWED_MIMES mime = Some ext"
    "resolve_ids payload (sanitize (filename payload) ext) = (reg, pon)"
    "storage_target cfg uuid_hex reg = (dir_path, base_prefix)"
    "os_makedirs fs dir_path = Inr fs1"
    "0 \<le> m"
    "\<not> os_path_exists fs1 (os_path_join dir_path (candidate_name base_prefix m ext))"
    "case pon of
       None \<Rightarrow> 1 \<le> m
     | Some p \<Rightarrow>
         if os_path_exists fs1 (os_path_join dir_path (candidate_name base_prefix p ext))
         then p < m else m = p"
    "fs' = fs1(os_path_join dir_path (candidate_name base_prefix m ext) \<mapsto> File binary)"
    "r_mime resp = mime" "r_registro resp = reg" "r_ponto resp = pon"
    "r_filename resp = candidate_name base_prefix m ext"
    "outcome = WriteOk"
    "case pon of None \<Rightarrow> True | Some p \<Rightarrow> 0 \<le> p"
    by (rule upload_success)
  have "case pon of None \<Rightarrow> 1 \<le> m | Some p \<Rightarrow> m = p \<or> (p < m \<and> 1 \<le> m)"
    using st(6,8,15) by (cases pon) (auto split: if_splits)
  with st show ?thesis
    by (intro exI [of _ binary] exI [of _ ext] exI [of _ dir_path] exI [of _ base_prefix]
        exI [of _ m]) simp
qed

theorem upload_file_name_shape_witness:
  "\<exists>fs' resp.
     upload cfg_default uuid_example WriteOk fs_two
       (payload_ids ''foto.jpg'' (Some 5) (Some 2)) req_plain = (fs', Inr resp)
     \<and> r_filename resp = ''5-3.jpg''
     \<and> (\<exists>n\<ge>0. r_filename resp = candidate_name ''5'' n ''jpg'' \<and> (n = 2 \<or> 2 < n \<and> 1 \<le> n))"
proof -
  obtain fs' resp where up:
    "upload cfg_default uuid_example WriteOk fs_two
       (payload_ids ''foto.jpg'' (Some 5) (Some 2)) req_plain = (fs', Inr resp)"
    and resp: "r_filename resp = ''5-3.jpg''" "r_mime resp = ''image/jpeg''"
      "r_registro resp = Some 5" "r_ponto resp = Some 2"
    using upload_5_2_eval by (auto split: prod.splits sum.splits)
  from upload_file_name_shape [OF up] resp
  have "\<exists>n\<ge>0. r_filename resp = candidate_name ''5'' n ''jpg'' \<and> (n = 2 \<or> 2 < n \<and> 1 \<le> n)"
    by (auto simp: ALLOWED_MIMES_def storage_target_def str_int_digits)
  with up resp(1) show ?thesis by blast
qed

subsection \<open>The ponto reported after a conflict\<close>

text \<open>
  C10: when an upload succeeds, a ponto \<open>p\<close> was supplied or inferred, and the exact name
  \<open>base_prefix-p.ext\<close> was already occupied, the response still reports ponto \<open>p\<close>, while its
  file name is \<open>base_prefix-n.ext\<close> for some \<open>n\<close> greater than \<open>p\<close>, a name other than the
  exact one: the reported ponto is not the number that was allocated.
\<close>

theorem upload_conflict_reports_requested_ponto:
  assumes "upload cfg uuid_hex outcome fs payload request = (fs', Inr resp)"
    and "ALLOWED_MIMES (r_mime resp) = Some ext"
    and "resolve_ids payload (sanitize (filename payload) ext) = (reg, Some p)"
    and "storage_target cfg uuid_hex reg = (dir_path, base_prefix)"
    and "os_path_exists fs (os_path_join dir_path (candidate_name base_prefix p ext))"
  shows "r_ponto resp = Some p
       \<and> (\<exists>n>p. r_filename resp = candidate_name base_prefix n ext)
       \<and> r_filename resp \<noteq> candidate_name base_prefix p ext"
proof -
  from assms(1) obtain mime binary ext' reg' pon dir_path' base_prefix' fs1 m where st:
    "ALLOWED_MIMES mime = Some ext'"
    "resolve_ids payload (sanitize (filename payload) ext') = (reg', pon)"
    "storage_target cfg uuid_hex reg' = (dir_path', base_prefix')"
    "os_makedirs fs dir_path' = Inr fs1"
    "\<not> os_path_exists fs1 (os_path_join dir_path' (candidate_name base_prefix' m ext'))"
    "case pon of
       None \<Rightarrow> 1 \<le> m
     | Some p \<Rightarrow>
         if os_path_exists fs1 (os_path_join dir_path' (candidate_name base_prefix' p ext'))
         then p < m else m = p"
    "r_mime resp = mime" "r_ponto resp = pon"
    "r_filename resp = candidate_name base_prefix' m ext'"
    by (rule upload_success)
  from st(1,7) assms(2) have ext: "ext' = ext" by simp
  with st(2) assms(3) have ids: "reg' = reg" "pon = Some p" by simp_all
  with st(3) assms(4) have tgt: "dir_path' = dir_path" "base_prefix' = base_prefix" by simp_all
  from st(4) have "fs1 = fs(dir_path' \<mapsto> Dir)"
    by (rule os_makedirs_Inr)
  with assms(5) tgt have occ:
    "os_path_exists fs1 (os_path_join dir_path (candidate_name base_prefix p ext))"
    by (simp add: os_path_exists_def)
  with st(6) ids ext tgt have "p < m" by simp
  moreover from occ st(5) ext tgt
  have "candidate_name base_prefix m ext \<noteq> candidate_name base_prefix p ext"
    by auto
  ultimately show ?thesis
    using st(8,9) ids ext tgt by auto
qed

theorem upload_conflict_reports_requested_ponto_witness:
  "\<exists>fs' resp.
     upload cfg_default uuid_example WriteOk fs_two
       (payload_ids ''foto.jpg'' (Some 5) (Some 2)) req_plain = (fs', Inr resp)
     \<and> os_path_exists fs_two (os_path_join ''/app/imagens/5'' (candidate_name ''5'' 2 ''jpg''))
     \<and> r_ponto resp = Some 2 \<and> r_filename resp = ''5-3.jpg''
     \<and> (\<exists>n>2. r_filename resp = candidate_name ''5'' n ''jpg'')"
proof -
  obtain fs' resp where up:
    "upload cfg_default uuid_example WriteOk fs_two
       (payload_ids ''foto.jpg'' (Some 5) (Some 2)) req_plain = (fs', Inr resp)"
    and resp: "r_filename resp = ''5-3.jpg''" "r_mime resp = ''image/jpeg''"
    using upload_5_2_eval by (auto split: prod.splits sum.splits)
  have mime: "ALLOWED_MIMES (r_mime resp) = Some ''jpg''"
    using resp(2) by (simp add: ALLOWED_MIMES_def)
  have ids: "resolve_ids (payload_ids ''foto.jpg'' (Some 5) (Some 2))
               (sanitize (filename (payload_ids ''foto.jpg'' (Some 5) (Some 2))) ''jpg'')
             = (Some 5, Some 2)"
    by code_simp
  have tgt: "storage_target cfg_default uuid_example (Some 5) = (''/app/imagens/5'', ''5'')"
    by code_simp
  have occ: "os_path_exists fs_two
      (os_path_join ''/app/imagens/5'' (candidate_name ''5'' 2 ''jpg''))"
    by code_simp
  from upload_conflict_reports_requested_ponto [OF up mime ids tgt occ] up resp(1) occ
  show ?thesis by blast
qed

subsection \<open>Identifiers taken from the file name\<close>

text \<open>
  C5: when the lower-cased sanitized file name matches \<^verbatim>\<open>FILENAME_RE\<close> with digit groups
  \<open>g_registro\<close> and \<open>g_ponto\<close>, a successful upload reports as registro the value of the
  request body when there is one and \<open>int(g_registro)\<close> otherwise, and likewise for ponto:
  an explicit field always wins, and the file name fills in only what is absent.
\<close>

theorem upload_ids_from_filename:
  assumes "upload cfg uuid_hex outcome fs payload request = (fs', Inr resp)"
    and "ALLOWED_MIMES (r_mime resp) = Some ext"
    and "FILENAME_RE_match (lower (sanitize (filename payload) ext))
           = Some (g_registro, g_ponto, g_ext)"
  shows "r_registro resp
           = Some (case registro payload of None \<Rightarrow> int_of_digits g_registro | Some r \<Rightarrow> r)
       \<and> r_ponto resp
           = Some (case ponto payload of None \<Rightarrow> int_of_digits g_ponto | Some p \<Rightarrow> p)"
proof -
  from assms(1) obtain mime ext' reg pon where st:
    "ALLOWED_MIMES mime = Some ext'"
    "resolve_ids payload (sanitize (filename payload) ext') = (reg, pon)"
    "r_mime resp = mime" "r_registro resp = reg" "r_ponto resp = pon"
    by (rule upload_success)
  from st(1,3) assms(2) have "ext' = ext" by simp
  with st(2) assms(3) have ids:
    "reg = (case registro payload of None \<Rightarrow> Some (int_of_digits g_registro) | Some r \<Rightarrow> Some r)"
    "pon = (case ponto payload of None \<Rightarrow> Some (int_of_digits g_ponto) | Some p \<Rightarrow> Some p)"
    by (simp_all add: resolve_ids_def)
  have "reg = Some (case registro payload of None \<Rightarrow> int_of_digits g_registro | Some r \<Rightarrow> r)"
    unfolding ids(1) by (cases "registro payload") simp_all
  moreover
  have "pon = Some (case ponto payload of None \<Rightarrow> int_of_digits g_ponto | Some p \<Rightarrow> p)"
    unfolding ids(2) by (cases "ponto payload") simp_all
  ultimately show ?thesis
    using st(4,5) by simp
qed

lemma upload_42_3_eval:
  "case upload cfg_default uuid_example WriteOk Map.empty
          (payload_ids ''42-3.jpg'' None None) req_plain of
     (fs', Inr resp) \<Rightarrow>
       r_filename resp = ''42-3.jpg'' \<and> r_mime resp = ''image/jpeg'' \<and>
       r_registro resp = Some 42 \<and> r_ponto resp = Some 3
   | (fs', Inl e) \<Rightarrow> False"
  by code_simp

theorem upload_ids_from_filename_witness:
  "\<exists>fs' resp.
     upload cfg_default uuid_example WriteOk Map.empty
       (payload_ids ''42-3.jpg'' None None) req_plain = (fs', Inr resp)
     \<and> FILENAME_RE_match (lower (sanitize ''42-3.jpg'' ''jpg'')) = Some (''42'', ''3'', ''jpg'')
     \<and> r_registro resp = Some 42 \<and> r_ponto resp = Some 3"
proof -
  obtain fs' resp where up:
    "upload cfg_default uuid_example WriteOk Map.empty
       (payload_ids ''42-3.jpg'' None None) req_plain = (fs', Inr resp)"
    and resp: "r_mime resp = ''image/jpeg''"
    using upload_42_3_eval by (auto split: prod.splits sum.splits)
  have mime: "ALLOWED_MIMES (r_mime resp) = Some ''jpg''"
    using resp by (simp add: ALLOWED_MIMES_def)
  have m: "FILENAME_RE_match (lower (sanitize ''42-3.jpg'' ''jpg'')) = Some (''42'', ''3'', ''jpg'')"
    by code_simp
  then have m': "FILENAME_RE_match
       (lower (sanitize (filename (payload_ids ''42-3.jpg'' None None)) ''jpg''))
       = Some (''42'', ''3'', ''jpg'')"
    by (simp add: payload_ids_def)
  have d: "int_of_digits ''42'' = 42" "int_of_digits ''3'' = 3"
    by code_simp+
  from upload_ids_from_filename [OF up mime m'] d
  have "r_registro resp = Some 42 \<and> r_ponto resp = Some 3"
    by (simp add: payload_ids_def)
  with up m show ?thesis by blast
qed

subsection \<open>What a failing upload leaves behind\<close>

lemma same_files_refl: "same_files fs fs"
  by (simp add: same_files_def)

lemma same_files_makedirs:
  assumes "os_makedirs fs p = Inr fs1"
  shows "same_files fs1 fs"
proof -
  from assms have "fs1 = fs(p \<mapsto> Dir)" and "\<forall>b. fs p \<noteq> Some (File b)"
    by (rule os_makedirs_Inr)+
  then show ?thesis
    by (auto simp: same_files_def)
qed

lemma choose_final_name_fs:
  assumes "fs dir_path = Some Dir" and "case pon of None \<Rightarrow> True | Some p \<Rightarrow> 0 \<le> p"
    and "choose_final_name fs dir_path base_prefix ext pon = (fs2, r)"
  shows "fs2 = fs"
  using choose_final_name_result [of fs dir_path pon base_prefix ext] assms
  by auto

lemma upload_locate_fs:
  assumes "upload_locate cfg uuid_hex fs payload = (fs1, r)"
  shows "fs1 = fs \<or> (\<exists>dir_path. os_makedirs fs dir_path = Inr fs1)"
proof (cases "filename payload = [] \<or> data_url payload = []")
  case True
  with assms show ?thesis by (auto simp: upload_locate_def)
next
  case nonempty: False
  show ?thesis
  proof (cases "parse_data_url cfg (data_url payload)")
    case (Inl e)
    with assms nonempty show ?thesis by (auto simp: upload_locate_def)
  next
    case (Inr mb)
    obtain mime binary where mb: "mb = (mime, binary)" by (cases mb)
    show ?thesis
    proof (cases "ALLOWED_MIMES mime")
      case None
      with assms nonempty Inr mb show ?thesis by (auto simp: upload_locate_def)
    next
      case (Some ext)
      obtain reg pon where ids:
        "resolve_ids payload (sanitize (filename payload) ext) = (reg, pon)"
        by (cases "resolve_ids payload (sanitize (filename payload) ext)")
      obtain dir_path base_prefix where tgt:
        "storage_target cfg uuid_hex reg = (dir_path, base_prefix)"
        by (cases "storage_target cfg uuid_hex reg")
      show ?thesis
      proof (cases "case reg of None \<Rightarrow> False | Some r \<Rightarrow> r < 0")
        case True
        with assms nonempty Inr mb Some ids show ?thesis
          by (auto simp: upload_locate_def)
      next
        case reg_ok: False
        show ?thesis
        proof (cases "os_makedirs fs dir_path")
          case (Inl e)
          with assms nonempty Inr mb Some ids tgt reg_ok show ?thesis
            by (auto simp: upload_locate_def)
        next
          case mk: (Inr fs0)
          have dir: "fs0 dir_path = Some Dir"
            using mk by (rule os_makedirs_Inr)
          show ?thesis
          proof (cases "case pon of None \<Rightarrow> False | Some p \<Rightarrow> p < 0")
            case True
            with assms nonempty Inr mb Some ids tgt reg_ok mk have "fs1 = fs0"
              by (auto simp: upload_locate_def)
            with mk show ?thesis by blast
          next
            case False
            then have pon_ok: "case pon of None \<Rightarrow> True | Some p \<Rightarrow> 0 \<le> p"
              by (cases pon) auto
            obtain fs2 r' where ch:
              "choose_final_name fs0 dir_path base_prefix ext pon = (fs2, r')"
              by (cases "choose_final_name fs0 dir_path base_prefix ext pon")
            with dir pon_ok have "fs2 = fs0"
              by (rule choose_final_name_fs)
            moreover from assms nonempty Inr mb Some ids tgt reg_ok mk False ch
            have "fs1 = fs2"
              by (cases r') (auto simp: upload_locate_def)
            ultimately show ?thesis using mk by blast
          qed
        qed
      qed
    qed
  qed
qed

lemma upload_locate_same_files:
  assumes "upload_locate cfg uuid_hex fs payload = (fs1, r)"
  shows "same_files fs1 fs"
  using upload_locate_fs [OF assms]
  by (auto simp: same_files_refl same_files_makedirs)


lemma upload_locate_Inr_target:
  assumes "upload_locate cfg uuid_hex fs payload = (fs1, Inr loc)"
  shows "fs1 (l_dir_path loc) = Some Dir"
    and "fs1 (os_path_join (l_dir_path loc) (l_final_name loc)) = None"
proof -
  from assms obtain mime binary ext reg pon dir_path base_prefix fs0 where st:
    "os_makedirs fs dir_path = Inr fs0"
    "case pon of None \<Rightarrow> True | Some p \<Rightarrow> 0 \<le> p"
    "choose_final_name fs0 dir_path base_prefix ext pon = (fs1, Inr (l_final_name loc))"
    "loc = \<lparr>l_mime = mime, l_binary = binary, l_registro = reg, l_ponto = pon,
            l_dir_path = dir_path, l_final_name = l_final_name loc\<rparr>"
    by (rule upload_locate_Inr)
  have d: "l_dir_path loc = dir_path"
    by (subst st(4)) simp
  from st(1) have dir: "fs0 dir_path = Some Dir"
    by (rule os_makedirs_Inr)
  from choose_final_name_result [of fs0 dir_path pon base_prefix ext] dir st(2,3)
  have "fs1 = fs0"
    and "\<not> os_path_exists fs0 (os_path_join dir_path (l_final_name loc))"
    by auto
  with dir d show "fs1 (l_dir_path loc) = Some Dir"
    and "fs1 (os_path_join (l_dir_path loc) (l_final_name loc)) = None"
    by (simp_all add: os_path_exists_def)
qed

lemma upload_write_Inl:
  assumes "fs (l_dir_path loc) = Some Dir"
    and "fs (os_path_join (l_dir_path loc) (l_final_name loc)) = None"
    and "upload_write cfg outcome fs loc request = (fs', Inl e)"
  shows "e = HTTPException 500 ''Erro ao salvar arquivo''"
    and "fs' = fs \<or> (\<exists>k. outcome = WriteFails k \<and>
           fs' = fs(os_path_join (l_dir_path loc) (l_final_name loc)
                      \<mapsto> File (take k (l_binary loc))))"
  using assms
  by (auto simp: upload_write_def open_wb_write_def Let_def is_OSError_def
      split: write_outcome.splits)

text \<open>
  C7, amended: the steps before the write never create or change a regular file (they create
  at most the target directory); once the name is resolved, the write is the last step that
  can fail, and when it goes through the upload succeeds. So a failing upload leaves the
  files of the storage tree as they were, except when the write itself fails after the file
  was opened: then the first bytes of the payload (possibly none) remain at the resolved
  path, the response is status 500, and nothing removes that file.
\<close>

theorem upload_failure_leaves_files:
  "(upload_locate cfg uuid_hex fs payload = (fs1, r) \<longrightarrow> same_files fs1 fs)
   \<and> (upload_locate cfg uuid_hex fs payload = (fs1, Inr loc) \<longrightarrow>
        (\<exists>resp. upload cfg uuid_hex WriteOk fs payload request
           = (fs1(os_path_join (l_dir_path loc) (l_final_name loc) \<mapsto> File (l_binary loc)),
              Inr resp)))
   \<and> (upload cfg uuid_hex outcome fs payload request = (fs', Inl e) \<longrightarrow>
        same_files fs' fs \<or>
        (\<exists>k fs2 loc'. outcome = WriteFails k
           \<and> upload_locate cfg uuid_hex fs payload = (fs2, Inr loc')
           \<and> e = HTTPException 500 ''Erro ao salvar arquivo''
           \<and> fs' = fs2(os_path_join (l_dir_path loc') (l_final_name loc')
                        \<mapsto> File (take k (l_binary loc')))))"
proof (intro conjI impI)
  assume "upload_locate cfg uuid_hex fs payload = (fs1, r)"
  then show "same_files fs1 fs"
    by (rule upload_locate_same_files)
next
  assume loc: "upload_locate cfg uuid_hex fs payload = (fs1, Inr loc)"
  from upload_write_ok [OF upload_locate_Inr_target [OF loc], of cfg request] loc
  show "\<exists>resp. upload cfg uuid_hex WriteOk fs payload request
           = (fs1(os_path_join (l_dir_path loc) (l_final_name loc) \<mapsto> File (l_binary loc)),
              Inr resp)"
    by (simp add: upload_def)
next
  assume up: "upload cfg uuid_hex outcome fs payload request = (fs', Inl e)"
  obtain fs2 r2 where loc: "upload_locate cfg uuid_hex fs payload = (fs2, r2)"
    by (cases "upload_locate cfg uuid_hex fs payload")
  then have same: "same_files fs2 fs"
    by (rule upload_locate_same_files)
  show "same_files fs' fs \<or>
        (\<exists>k fs2 loc'. outcome = WriteFails k
           \<and> upload_locate cfg uuid_hex fs payload = (fs2, Inr loc')
           \<and> e = HTTPException 500 ''Erro ao salvar arquivo''
           \<and> fs' = fs2(os_path_join (l_dir_path loc') (l_final_name loc')
                        \<mapsto> File (take k (l_binary loc'))))"
  proof (cases r2)
    case (Inl e2)
    with up loc have "fs' = fs2"
      by (simp add: upload_def)
    with same show ?thesis by simp
  next
    case (Inr loc')
    with loc have loc': "upload_locate cfg uuid_hex fs payload = (fs2, Inr loc')"
      by simp
    obtain e' where wr: "upload_write cfg outcome fs2 loc' request = (fs', Inl e')"
      and e: "e = outer_except e'"
      using up loc' by (auto simp: upload_def split: prod.splits sum.splits)
    from upload_write_Inl [OF upload_locate_Inr_target [OF loc'] wr]
    have e': "e' = HTTPException 500 ''Erro ao salvar arquivo''"
      and alt: "fs' = fs2 \<or> (\<exists>k. outcome = WriteFails k \<and>
           fs' = fs2(os_path_join (l_dir_path loc') (l_final_name loc')
                      \<mapsto> File (take k (l_binary loc'))))"
      by simp_all
    from e e' have "e = HTTPException 500 ''Erro ao salvar arquivo''"
      by (simp add: outer_except_def)
    with alt loc' same show ?thesis
      by blast
  qed
qed

lemma upload_bad_ponto_eval:
  "case upload cfg_default uuid_example WriteOk Map.empty
          (payload_ids ''foto.jpg'' (Some 5) (Some (- 1))) req_plain of
     (fs', Inl e) \<Rightarrow> e = HTTPException 400 (''ponto '' @ invalido)
   | (fs', Inr resp) \<Rightarrow> False"
  by code_simp

theorem upload_failure_leaves_files_witness:
  "\<exists>fs' e.
     upload cfg_default uuid_example WriteOk Map.empty
       (payload_ids ''foto.jpg'' (Some 5) (Some (- 1))) req_plain = (fs', Inl e)
     \<and> e = HTTPException 400 (''ponto '' @ invalido)
     \<and> same_files fs' Map.empty"
proof -
  obtain fs' e where up:
    "upload cfg_default uuid_example WriteOk Map.empty
       (payload_ids ''foto.jpg'' (Some 5) (Some (- 1))) req_plain = (fs', Inl e)"
    and e: "e = HTTPException 400 (''ponto '' @ invalido)"
    using upload_bad_ponto_eval by (auto split: prod.splits sum.splits)
  from upload_failure_leaves_files
    [of cfg_default uuid_example Map.empty "payload_ids ''foto.jpg'' (Some 5) (Some (- 1))"
        fs' "Inl e" _ req_plain WriteOk fs' e] up
  have "same_files fs' Map.empty"
    by simp
  with up e show ?thesis by blast
qed

text \<open>
  C7, as stated, fails: when the write of a three-byte payload into an empty tree fails after
  one byte, the upload fails with status 500 and a one-byte file stays behind.
\<close>

theorem upload_write_failure_counterexample:
  "parse_data_url cfg_default (data_url (payload_ids ''foto.jpg'' (Some 5) (Some 2)))
     = Inr (''image/jpeg'', [77, 97, 110])
   \<and> (case upload cfg_default uuid_example (WriteFails 1) Map.empty
             (payload_ids ''foto.jpg'' (Some 5) (Some 2)) req_plain of
        (fs', Inl e) \<Rightarrow>
          e = HTTPException 500 ''Erro ao salvar arquivo'' \<and>
          fs' ''/app/imagens/5/5-2.jpg'' = Some (File [77])
      | (fs', Inr resp) \<Rightarrow> False)"
  by code_simp

subsection \<open>A known ponto and its conflicts\<close>

lemma next_sequential_name_found:
  assumes "fs dir_path = Some Dir"
    and "\<forall>j<k. os_path_exists fs
           (os_path_join dir_path (candidate_name base_prefix (max 1 start + int j) ext))"
    and "k < 10000"
    and "\<not> os_path_exists fs
           (os_path_join dir_path (candidate_name base_prefix (max 1 start + int k) ext))"
  shows "next_sequential_name fs dir_path base_prefix ext start
           = (fs, Inr (candidate_name base_prefix (max 1 start + int k) ext))"
proof -
  from assms(3) have "0 + k \<le> max_attempts" by (simp add: max_attempts_def)
  from name_loop_skip [OF this assms(2)]
  have "name_loop fs dir_path base_prefix ext (max 1 start) 0
          = name_loop fs dir_path base_prefix ext (max 1 start + int k) k"
    by simp
  also have "\<dots> = (fs, Inr (candidate_name base_prefix (max 1 start + int k) ext))"
    using assms(1,3,4) by (intro name_loop_free) (simp_all add: max_attempts_def)
  finally show ?thesis
    using assms(1) by (simp add: next_sequential_name_def os_path_exists_def)
qed

lemma next_sequential_name_exhausted:
  assumes "fs dir_path = Some Dir"
    and "\<forall>j<10000. os_path_exists fs
           (os_path_join dir_path (candidate_name base_prefix (max 1 start + int j) ext))"
  shows "next_sequential_name fs dir_path base_prefix ext start = (fs, Inl exhausted)"
proof -
  have "0 + max_attempts \<le> max_attempts" by simp
  moreover from assms(2) have "\<forall>j<max_attempts. os_path_exists fs
      (os_path_join dir_path (candidate_name base_prefix (max 1 start + int j) ext))"
    by (simp add: max_attempts_def)
  ultimately have "name_loop fs dir_path base_prefix ext (max 1 start) 0
      = name_loop fs dir_path base_prefix ext (max 1 start + int max_attempts) (0 + max_attempts)"
    by (rule name_loop_skip)
  then show ?thesis
    using assms(1)
    by (simp add: next_sequential_name_def os_path_exists_def name_loop_exhausted)
qed

text \<open>
  C3, amended. Once the request is validated and its directory exists: when a ponto \<open>p\<close> is
  known and the exact name \<open>base_prefix-p.ext\<close> is free, that name is used; when the exact
  name is occupied the name is allocated by the sequential namer starting at \<open>p + 1\<close>, and
  when no ponto is known by the sequential namer starting at 1: the first free candidate
  among the 10000 tried is used and the upload succeeds when the write does. The conflict
  itself is no error, but the upload still fails with status 500 when all 10000 candidates
  are occupied. Whatever the outcome, a file that existed under the exact name keeps its
  content.
\<close>

theorem upload_ponto_conflict:
  assumes "filename payload \<noteq> []" "data_url payload \<noteq> []"
    and "parse_data_url cfg (data_url payload) = Inr (mime, binary)"
    and "ALLOWED_MIMES mime = Some ext"
    and "resolve_ids payload (sanitize (filename payload) ext) = (reg, pon)"
    and "case reg of None \<Rightarrow> True | Some r \<Rightarrow> 0 \<le> r"
    and "storage_target cfg uuid_hex reg = (dir_path, base_prefix)"
    and "os_makedirs fs dir_path = Inr fs1"
    and "case pon of None \<Rightarrow> True | Some p \<Rightarrow> 0 \<le> p"
    and "path = (\<lambda>n. os_path_join dir_path (candidate_name base_prefix n ext))"
    and "start = (case pon of None \<Rightarrow> 1 | Some p \<Rightarrow> p + 1)"
  shows "(\<forall>p. pon = Some p \<and> \<not> os_path_exists fs1 (path p) \<longrightarrow>
            (\<exists>resp. upload cfg uuid_hex WriteOk fs payload request
                      = (fs1(path p \<mapsto> File binary), Inr resp)
                 \<and> r_filename resp = candidate_name base_prefix p ext))
       \<and> ((pon = None \<or> (\<exists>p. pon = Some p \<and> os_path_exists fs1 (path p)))
            \<and> (\<forall>j<k. os_path_exists fs1 (path (start + int j)))
            \<and> k < 10000 \<and> \<not> os_path_exists fs1 (path (start + int k)) \<longrightarrow>
            (\<exists>resp. upload cfg uuid_hex WriteOk fs payload request
                      = (fs1(path (start + int k) \<mapsto> File binary), Inr resp)
                 \<and> r_filename resp = candidate_name base_prefix (start + int k) ext))
       \<and> ((pon = None \<or> (\<exists>p. pon = Some p \<and> os_path_exists fs1 (path p)))
            \<and> (\<forall>j<10000. os_path_exists fs1 (path (start + int j))) \<longrightarrow>
            (\<exists>detail. upload cfg uuid_hex outcome fs payload request
                      = (fs1, Inl (HTTPException 500 detail))))
       \<and> (\<forall>p b fs' r. pon = Some p \<and> fs (path p) = Some (File b)
            \<and> upload cfg uuid_hex outcome fs payload request = (fs', r) \<longrightarrow>
            fs' (path p) = Some (File b))"
proof -
  have dir: "fs1 dir_path = Some Dir"
    using assms(8) by (rule os_makedirs_Inr)
  have fs1: "fs1 = fs(dir_path \<mapsto> Dir)"
    using assms(8) by (rule os_makedirs_Inr)
  have start1: "max 1 start = start"
    using assms(9,11) by (cases pon) auto
  note reach = upload_locate_reaches [OF assms(1-9)]
  have written: "\<exists>resp. upload cfg uuid_hex WriteOk fs payload request
                      = (fs1(path n \<mapsto> File binary), Inr resp)
                 \<and> r_filename resp = candidate_name base_prefix n ext"
    if ch: "choose_final_name fs1 dir_path base_prefix ext pon
              = (fs1, Inr (candidate_name base_prefix n ext))"
      and free: "\<not> os_path_exists fs1 (path n)" for n
  proof -
    let ?loc = "\<lparr>l_mime = mime, l_binary = binary, l_registro = reg, l_ponto = pon,
                 l_dir_path = dir_path, l_final_name = candidate_name base_prefix n ext\<rparr>"
    from reach ch have loc: "upload_locate cfg uuid_hex fs payload = (fs1, Inr ?loc)"
      by simp
    have "fs1 (l_dir_path ?loc) = Some Dir"
      and "fs1 (os_path_join (l_dir_path ?loc) (l_final_name ?loc)) = None"
      using dir free assms(10) by (simp_all add: os_path_exists_def)
    from upload_write_ok [OF this, of cfg request] loc assms(10)
    show ?thesis
      by (simp add: upload_def)
  qed
  have seq: "choose_final_name fs1 dir_path base_prefix ext pon
               = next_sequential_name fs1 dir_path base_prefix ext start"
    if "pon = None \<or> (\<exists>p. pon = Some p \<and> os_path_exists fs1 (path p))"
    using that assms(10,11) by (auto simp: choose_final_name_def)
  show ?thesis
  proof (intro conjI allI impI)
    fix p
    assume a: "pon = Some p \<and> \<not> os_path_exists fs1 (path p)"
    then have "choose_final_name fs1 dir_path base_prefix ext pon
                 = (fs1, Inr (candidate_name base_prefix p ext))"
      using assms(10) by (simp add: choose_final_name_def)
    with a show "\<exists>resp. upload cfg uuid_hex WriteOk fs payload request
                      = (fs1(path p \<mapsto> File binary), Inr resp)
                 \<and> r_filename resp = candidate_name base_prefix p ext"
      by (intro written) simp_all
  next
    assume a: "(pon = None \<or> (\<exists>p. pon = Some p \<and> os_path_exists fs1 (path p)))
            \<and> (\<forall>j<k. os_path_exists fs1 (path (start + int j)))
            \<and> k < 10000 \<and> \<not> os_path_exists fs1 (path (start + int k))"
    then have "next_sequential_name fs1 dir_path base_prefix ext start
                 = (fs1, Inr (candidate_name base_prefix (max 1 start + int k) ext))"
      using dir assms(10) start1 by (intro next_sequential_name_found) simp_all
    with a seq start1 show "\<exists>resp. upload cfg uuid_hex WriteOk fs payload request
                      = (fs1(path (start + int k) \<mapsto> File binary), Inr resp)
                 \<and> r_filename resp = candidate_name base_prefix (start + int k) ext"
      by (intro written) simp_all
  next
    assume a: "(pon = None \<or> (\<exists>p. pon = Some p \<and> os_path_exists fs1 (path p)))
            \<and> (\<forall>j<10000. os_path_exists fs1 (path (start + int j)))"
    then have "next_sequential_name fs1 dir_path base_prefix ext start = (fs1, Inl exhausted)"
      using dir assms(10) start1 by (intro next_sequential_name_exhausted) simp_all
    with a seq reach
    have "upload cfg uuid_hex outcome fs payload request = (fs1, Inl exhausted)"
      by (simp add: upload_def outer_except_def exhausted_def)
    then show "\<exists>detail. upload cfg uuid_hex outcome fs payload request
                      = (fs1, Inl (HTTPException 500 detail))"
      by (simp add: exhausted_def)
  next
    fix p b fs' r
    assume a: "pon = Some p \<and> fs (path p) = Some (File b)
            \<and> upload cfg uuid_hex outcome fs payload request = (fs', r)"
    from assms(8) have "\<forall>b. fs dir_path \<noteq> Some (File b)"
      by (rule os_makedirs_Inr)
    with a have "path p \<noteq> dir_path" by auto
    with a fs1 have kept: "fs1 (path p) = Some (File b)" by simp
    from choose_final_name_result [of fs1 dir_path pon base_prefix ext] dir assms(9)
    consider "choose_final_name fs1 dir_path base_prefix ext pon = (fs1, Inl exhausted)"
      | m where "choose_final_name fs1 dir_path base_prefix ext pon
                   = (fs1, Inr (candidate_name base_prefix m ext))"
          "\<not> os_path_exists fs1 (path m)"
      using assms(10) by auto
    then show "fs' (path p) = Some (File b)"
    proof cases
      case 1
      with reach a have "fs' = fs1"
        by (simp add: upload_def)
      with kept show ?thesis by simp
    next
      case 2
      let ?loc = "\<lparr>l_mime = mime, l_binary = binary, l_registro = reg, l_ponto = pon,
                   l_dir_path = dir_path, l_final_name = candidate_name base_prefix m ext\<rparr>"
      from reach 2(1) have loc: "upload_locate cfg uuid_hex fs payload = (fs1, Inr ?loc)"
        by simp
      from 2(2) kept have ne: "path m \<noteq> path p"
        by (auto simp: os_path_exists_def)
      obtain r' where wr: "upload_write cfg outcome fs1 ?loc request = (fs', r')"
        using a loc by (auto simp: upload_def split: prod.splits sum.splits)
      have "fs' = fs1 \<or> (\<exists>bs. fs' = fs1(path m \<mapsto> File bs))"
      proof (cases r')
        case (Inl e')
        have d1: "fs1 (l_dir_path ?loc) = Some Dir"
          and d2: "fs1 (os_path_join (l_dir_path ?loc) (l_final_name ?loc)) = None"
          using dir 2(2) assms(10) by (simp_all add: os_path_exists_def)
        from wr Inl have wr': "upload_write cfg outcome fs1 ?loc request = (fs', Inl e')"
          by simp
        from upload_write_Inl(2) [OF d1 d2 wr'] show ?thesis
          using assms(10) by auto
      next
        case (Inr resp)
        with wr upload_write_Inr(2) [of cfg outcome fs1 ?loc request fs' resp] show ?thesis
          using assms(10) by auto
      qed
      with ne kept show ?thesis by auto
    qed
  qed
qed


lemma payload_5_2_stage:
  "filename (payload_ids ''foto.jpg'' (Some 5) (Some 2)) \<noteq> []"
  "data_url (payload_ids ''foto.jpg'' (Some 5) (Some 2)) \<noteq> []"
  "parse_data_url cfg_default (data_url (payload_ids ''foto.jpg'' (Some 5) (Some 2)))
     = Inr (''image/jpeg'', [77, 97, 110])"
  "ALLOWED_MIMES ''image/jpeg'' = Some ''jpg''"
  "resolve_ids (payload_ids ''foto.jpg'' (Some 5) (Some 2))
     (sanitize (filename (payload_ids ''foto.jpg'' (Some 5) (Some 2))) ''jpg'')
     = (Some 5, Some 2)"
  "storage_target cfg_default uuid_example (Some 5) = (''/app/imagens/5'', ''5'')"
  by code_simp+

text \<open>
  C3, as stated, fails where it says the upload does not error: with \<^verbatim>\<open>5-2.jpg\<close> occupied
  and the 10000 names \<^verbatim>\<open>5-3.jpg\<close> to \<^verbatim>\<open>5-10002.jpg\<close> occupied as well, the upload with
  registro 5 and ponto 2 fails with status 500.
\<close>

theorem upload_conflict_exhausted_counterexample:
  "os_path_exists (crowded_fs ''/app/imagens/5'' ''5'' ''jpg'' 2 10002)
     (os_path_join ''/app/imagens/5'' (candidate_name ''5'' 2 ''jpg''))
   \<and> upload cfg_default uuid_example WriteOk (crowded_fs ''/app/imagens/5'' ''5'' ''jpg'' 2 10002)
       (payload_ids ''foto.jpg'' (Some 5) (Some 2)) req_plain
     = (crowded_fs ''/app/imagens/5'' ''5'' ''jpg'' 2 10002, Inl exhausted)"
proof -
  let ?fs = "crowded_fs ''/app/imagens/5'' ''5'' ''jpg'' 2 10002"
  have dir: "?fs ''/app/imagens/5'' = Some Dir"
    by (simp add: crowded_fs_def)
  then have mk: "os_makedirs ?fs ''/app/imagens/5'' = Inr ?fs"
    by (simp add: os_makedirs_def)
  have occ: "os_path_exists ?fs
      (os_path_join ''/app/imagens/5'' (candidate_name ''5'' 2 ''jpg''))"
    by (rule crowded_fs_occupied) simp_all
  have all: "\<forall>j<10000. os_path_exists ?fs
      (os_path_join ''/app/imagens/5'' (candidate_name ''5'' (max 1 (2 + 1) + int j) ''jpg''))"
    by (intro allI impI crowded_fs_occupied) simp_all
  from dir all have "next_sequential_name ?fs ''/app/imagens/5'' ''5'' ''jpg'' (2 + 1)
      = (?fs, Inl exhausted)"
    by (rule next_sequential_name_exhausted)
  with occ have "choose_final_name ?fs ''/app/imagens/5'' ''5'' ''jpg'' (Some 2)
      = (?fs, Inl exhausted)"
    by (simp add: choose_final_name_def)
  with upload_locate_reaches [OF payload_5_2_stage(1-5) _ payload_5_2_stage(6) mk]
  have "upload_locate cfg_default uuid_example ?fs (payload_ids ''foto.jpg'' (Some 5) (Some 2))
      = (?fs, Inl exhausted)"
    by simp
  then have "upload cfg_default uuid_example WriteOk ?fs
       (payload_ids ''foto.jpg'' (Some 5) (Some 2)) req_plain = (?fs, Inl exhausted)"
    by (simp add: upload_def outer_except_def exhausted_def)
  with occ show ?thesis by simp
qed

theorem upload_ponto_conflict_witness:
  "os_makedirs fs_two ''/app/imagens/5'' = Inr fs_two
   \<and> os_path_exists fs_two (os_path_join ''/app/imagens/5'' (candidate_name ''5'' 2 ''jpg''))
   \<and> \<not> os_path_exists fs_two (os_path_join ''/app/imagens/5'' (candidate_name ''5'' 3 ''jpg''))
   \<and> (\<exists>resp. upload cfg_default uuid_example WriteOk fs_two
                (payload_ids ''foto.jpg'' (Some 5) (Some 2)) req_plain
              = (fs_two(''/app/imagens/5/5-3.jpg'' \<mapsto> File [77, 97, 110]), Inr resp)
           \<and> r_filename resp = ''5-3.jpg'')"
proof -
  have mk: "os_makedirs fs_two ''/app/imagens/5'' = Inr fs_two"
    by (simp add: os_makedirs_def fs_two_def)
  have occ: "os_path_exists fs_two
      (os_path_join ''/app/imagens/5'' (candidate_name ''5'' 2 ''jpg''))"
    by code_simp
  have free: "\<not> os_path_exists fs_two
      (os_path_join ''/app/imagens/5'' (candidate_name ''5'' 3 ''jpg''))"
    by code_simp
  have name: "os_path_join ''/app/imagens/5'' (candidate_name ''5'' 3 ''jpg'')
      = ''/app/imagens/5/5-3.jpg''" "candidate_name ''5'' 3 ''jpg'' = ''5-3.jpg''"
    by code_simp+
  from upload_ponto_conflict [where k = 0 and request = req_plain and outcome = WriteOk,
      OF payload_5_2_stage(1-5) _ payload_5_2_stage(6) mk _ refl refl] occ free
  have "\<exists>resp. upload cfg_default uuid_example WriteOk fs_two
                (payload_ids ''foto.jpg'' (Some 5) (Some 2)) req_plain
              = (fs_two(os_path_join ''/app/imagens/5'' (candidate_name ''5'' 3 ''jpg'')
                   \<mapsto> File [77, 97, 110]), Inr resp)
           \<and> r_filename resp = candidate_name ''5'' 3 ''jpg''"
    by simp
  with mk occ free name show ?thesis
    by simp
qed

subsection \<open>Two uploads at once\<close>

text \<open>
  C1 does not hold of the code. \<^verbatim>\<open>next_sequential_name\<close> removes its probe file before it
  returns, so the name it hands out is not reserved. Take two requests for registro 5 with no
  ponto, handled by two workers over an empty tree, in this order: the first chooses its
  name, the second chooses its name, the first writes, the second writes. Each step below is
  the handler's own code, run on the filesystem the previous step left. Both uploads succeed
  with the file name \<^verbatim>\<open>5-1.jpg\<close>, and the second write replaces the bytes of the first.
\<close>

theorem concurrent_uploads_share_name:
  "case upload_locate cfg_default uuid_example Map.empty (payload_ids ''foto.jpg'' (Some 5) None) of
     (fs1, Inr loc_a) \<Rightarrow>
       (case upload_locate cfg_default uuid_example fs1 payload_other of
          (fs2, Inr loc_b) \<Rightarrow>
            (case upload_write cfg_default WriteOk fs2 loc_a req_plain of
               (fs3, Inr resp_a) \<Rightarrow>
                 (case upload_write cfg_default WriteOk fs3 loc_b req_plain of
                    (fs4, Inr resp_b) \<Rightarrow>
                      r_filename resp_a = ''5-1.jpg'' \<and> r_filename resp_b = ''5-1.jpg'' \<and>
                      fs3 ''/app/imagens/5/5-1.jpg'' = Some (File [77, 97, 110]) \<and>
                      fs4 ''/app/imagens/5/5-1.jpg'' = Some (File [77, 97, 117])
                  | (fs4, Inl e) \<Rightarrow> False)
             | (fs3, Inl e) \<Rightarrow> False)
        | (fs2, Inl e) \<Rightarrow> False)
   | (fs1, Inl e) \<Rightarrow> False"
  by code_simp

subsection \<open>Base64: decoding what was encoded\<close>

lemma code_b64_char:
  "code (b64_char i) =
     (if i < 26 then 65 + i else if i < 52 then 71 + i else if i < 62 then i - 4
      else if i = 62 then 43 else 47)"
  by (simp add: code_def b64_char_def)

lemma b64_val_b64_char: "i < 64 \<Longrightarrow> b64_val (b64_char i) = Some i"
  unfolding b64_val_def Let_def code_b64_char
  by (auto simp: b64_char_def)

lemma b64_char_not_pad: "b64_char i \<noteq> CHR ''=''"
proof
  assume "b64_char i = CHR ''=''"
  then have "code (b64_char i) = code CHR ''=''" by simp
  then show False
    unfolding code_b64_char by (simp add: code_def split: if_splits)
qed

lemma b64_char_ascii: "code (b64_char i) < 128"
  unfolding code_b64_char by auto

lemma b64_char_not_newline: "b64_char i \<noteq> newline"
proof
  assume "b64_char i = newline"
  then have "code (b64_char i) = code newline" by simp
  then show False
    unfolding code_b64_char by (simp add: code_def newline_def split: if_splits)
qed


lemma a2b_quad:
  assumes "v1 < 64" "v2 < 64" "v3 < 64" "v4 < 64"
  shows "a2b_loop (b64_char v1 # b64_char v2 # b64_char v3 # b64_char v4 # rest) (a2b_start out)
           = a2b_loop rest (a2b_start (out @
               [of_nat (v1 * 4 + v2 div 16), of_nat (v2 mod 16 * 16 + v3 div 4),
                of_nat (v3 mod 4 * 64 + v4)]))"
  using assms
  by (simp add: a2b_start_def b64_val_b64_char b64_char_not_pad)

lemma a2b_pad2:
  assumes "v1 < 64" "v2 < 64"
  shows "a2b_loop [b64_char v1, b64_char v2, CHR ''='', CHR ''=''] (a2b_start out)
           = Some (out @ [of_nat (v1 * 4 + v2 div 16)])"
  using assms
  by (simp add: a2b_start_def b64_val_b64_char b64_char_not_pad)

lemma a2b_pad1:
  assumes "v1 < 64" "v2 < 64" "v3 < 64"
  shows "a2b_loop [b64_char v1, b64_char v2, b64_char v3, CHR ''=''] (a2b_start out)
           = Some (out @ [of_nat (v1 * 4 + v2 div 16), of_nat (v2 mod 16 * 16 + v3 div 4)])"
  using assms
  by (simp add: a2b_start_def b64_val_b64_char b64_char_not_pad)

lemma unat_byte_less: "unat (a :: byte) < 256"
  using unsigned_less [of a] by simp

lemma byte_first:
  "(of_nat (unat a div 4 * 4 + (unat a mod 4 * 16 + unat (b :: byte) div 16) div 16) :: byte) = a"
proof -
  from unat_byte_less [of b] have "unat b div 16 < 16" by simp
  then have "(unat a mod 4 * 16 + unat b div 16) div 16 = unat a mod 4" by simp
  then show ?thesis by simp
qed

lemma byte_second:
  "(of_nat ((unat (a :: byte) mod 4 * 16 + unat b div 16) mod 16 * 16
       + (unat b mod 16 * 4 + unat (c :: byte) div 64) div 4) :: byte) = b"
proof -
  from unat_byte_less [of b] have "unat b div 16 < 16" by simp
  then have 1: "(unat a mod 4 * 16 + unat b div 16) mod 16 = unat b div 16" by simp
  from unat_byte_less [of c] have "unat c div 64 < 4" by simp
  then have 2: "(unat b mod 16 * 4 + unat c div 64) div 4 = unat b mod 16" by simp
  show ?thesis unfolding 1 2 by simp
qed

lemma byte_third:
  "(of_nat ((unat (b :: byte) mod 16 * 4 + unat (c :: byte) div 64) mod 4 * 64 + unat c mod 64)
      :: byte) = c"
proof -
  from unat_byte_less [of c] have "unat c div 64 < 4" by simp
  then have "(unat b mod 16 * 4 + unat c div 64) mod 4 = unat c div 64" by simp
  then show ?thesis by simp
qed


lemma sextet_bounds:
  "unat (a :: byte) div 4 < 64"
  "unat (a :: byte) mod 4 * 16 + unat (b :: byte) div 16 < 64"
  "unat (b :: byte) mod 16 * 4 + unat (c :: byte) div 64 < 64"
  "unat (c :: byte) mod 64 < 64"
  "unat (a :: byte) mod 4 * 16 < 64"
  "unat (b :: byte) mod 16 * 4 < 64"
proof -
  from unat_byte_less [of a] show "unat a div 4 < 64" by simp
  have "unat a mod 4 < 4" by simp
  moreover from unat_byte_less [of b] have "unat b div 16 < 16" by simp
  ultimately show "unat a mod 4 * 16 + unat b div 16 < 64" by linarith
  have "unat b mod 16 < 16" by simp
  moreover from unat_byte_less [of c] have "unat c div 64 < 4" by simp
  ultimately show "unat b mod 16 * 4 + unat c div 64 < 64" by linarith
  show "unat c mod 64 < 64" by simp
  from \<open>unat a mod 4 < 4\<close> show "unat a mod 4 * 16 < 64" by linarith
  from \<open>unat b mod 16 < 16\<close> show "unat b mod 16 * 4 < 64" by linarith
qed

lemma a2b_loop_b64encode:
  "a2b_loop (b64encode bs) (a2b_start out) = Some (out @ bs)"
proof (induction bs arbitrary: out rule: b64encode.induct)
  case 1
  show ?case by (simp add: a2b_start_def)
next
  case (2 a)
  have "(of_nat (unat a div 4 * 4 + unat a mod 4 * 16 div 16) :: byte) = a"
    by simp
  with a2b_pad2 [OF sextet_bounds(1) sextet_bounds(5), of a a out] show ?case
    by simp
next
  case (3 a b)
  have "(of_nat ((unat a mod 4 * 16 + unat b div 16) mod 16 * 16 + unat b mod 16 * 4 div 4)
          :: byte) = b"
    using byte_second [of a b 0] by simp
  with a2b_pad1 [OF sextet_bounds(1) sextet_bounds(2) sextet_bounds(6), of a a b b out]
       byte_first [of a b]
  show ?case by simp
next
  case (4 a b c bs)
  have "a2b_loop (b64encode (a # b # c # bs)) (a2b_start out)
          = a2b_loop (b64_char (unat a div 4) # b64_char (unat a mod 4 * 16 + unat b div 16) #
              b64_char (unat b mod 16 * 4 + unat c div 64) # b64_char (unat c mod 64) #
              b64encode bs) (a2b_start out)"
    by (simp only: b64encode.simps append.simps)
  also have "\<dots> = a2b_loop (b64encode bs) (a2b_start (out @ [a, b, c]))"
    by (simp only: a2b_quad [OF sextet_bounds(1) sextet_bounds(2) sextet_bounds(3)
          sextet_bounds(4)] byte_first byte_second byte_third)
  also have "\<dots> = Some ((out @ [a, b, c]) @ bs)"
    by (rule "4.IH")
  finally show ?case by simp
qed

lemma b64encode_chars:
  "c \<in> set (b64encode bs) \<Longrightarrow> c = CHR ''='' \<or> (\<exists>i. c = b64_char i)"
  by (induction bs rule: b64encode.induct) auto

lemma b64encode_hd:
  "bs \<noteq> [] \<Longrightarrow> b64encode bs \<noteq> [] \<and> hd (b64encode bs) \<noteq> CHR ''=''"
  by (cases bs rule: b64encode.cases) (simp_all add: b64_char_not_pad)

lemma pad_not_newline: "CHR ''='' \<noteq> newline"
  by code_simp

lemma b64encode_last:
  "bs \<noteq> [] \<Longrightarrow> last (b64encode bs) \<noteq> newline"
proof -
  assume "bs \<noteq> []"
  then have "b64encode bs \<noteq> []" by (simp add: b64encode_hd)
  then have "last (b64encode bs) \<in> set (b64encode bs)" by simp
  then have "last (b64encode bs) = CHR ''='' \<or> (\<exists>i. last (b64encode bs) = b64_char i)"
    by (rule b64encode_chars)
  then show ?thesis
    using b64_char_not_newline pad_not_newline by auto
qed

lemma b64encode_no_newline: "newline \<notin> set (b64encode bs)"
proof
  assume "newline \<in> set (b64encode bs)"
  then have "newline = CHR ''='' \<or> (\<exists>i. newline = b64_char i)"
    by (rule b64encode_chars)
  then show False
  proof (elim disjE exE)
    assume "newline = CHR ''=''"
    with pad_not_newline show False by simp
  next
    fix i
    assume "newline = b64_char i"
    then have "b64_char i = newline" by simp
    with b64_char_not_newline show False by blast
  qed
qed

lemma b64encode_ascii: "c \<in> set (b64encode bs) \<Longrightarrow> code c < 128"
  by (auto dest!: b64encode_chars simp: b64_char_ascii) (simp add: code_def)

lemma b64decode_b64encode: "b64decode_validate (b64encode bs) = Some bs"
proof -
  have "\<not> (\<exists>c \<in> set (b64encode bs). code c \<ge> 128)"
    using b64encode_ascii [of _ bs] by (auto simp: not_le)
  moreover have "\<not> (b64encode bs \<noteq> [] \<and> hd (b64encode bs) = CHR ''='')"
    by (cases "bs = []") (simp_all add: b64encode_hd)
  ultimately show ?thesis
    using a2b_loop_b64encode [of bs "[]"]
    by (simp add: b64decode_validate_def a2b_start_def)
qed

lemma length_b64encode: "length (b64encode bs) = 4 * ((length bs + 2) div 3)"
proof (induction bs rule: b64encode.induct)
  case (4 a b c bs)
  have "(length (a # b # c # bs) + 2) div 3 = (length bs + 2) div 3 + 1"
    by simp
  with 4 show ?case by simp
qed simp_all

subsection \<open>Decoding a data URL\<close>

lemma is_mime_char_lower: "is_mime_char (lower_char c) \<Longrightarrow> is_mime_char c"
proof (cases "lower_char c = c")
  case True
  then show "is_mime_char (lower_char c) \<Longrightarrow> is_mime_char c" by simp
next
  case False
  then have "(65 \<le> code c \<and> code c \<le> 90) \<or> (192 \<le> code c \<and> code c \<le> 214)
      \<or> (216 \<le> code c \<and> code c \<le> 222)"
    by (auto simp: lower_char_def Let_def split: if_splits)
  then have "is_word c"
    by (auto simp: is_word_def Let_def)
  then show "is_mime_char c"
    by (simp add: is_mime_char_def)
qed

lemma allowed_mime_chars:
  assumes "ALLOWED_MIMES (lower m) \<noteq> None"
  shows "m \<noteq> []" and "\<forall>c \<in> set m. is_mime_char c"
proof -
  from assms have cases: "lower m = ''image/jpeg'' \<or> lower m = ''image/png''
      \<or> lower m = ''image/webp''"
    by (auto simp: ALLOWED_MIMES_def split: if_splits)
  then show "m \<noteq> []"
    by (auto simp: lower_def)
  have "\<forall>c \<in> set ''image/jpeg''. is_mime_char c" "\<forall>c \<in> set ''image/png''. is_mime_char c"
    "\<forall>c \<in> set ''image/webp''. is_mime_char c"
    by code_simp+
  with cases have "\<forall>c \<in> set (lower m). is_mime_char c"
    by metis
  then show "\<forall>c \<in> set m. is_mime_char c"
    by (auto simp: lower_def intro: is_mime_char_lower)
qed

lemma semicolon_not_mime: "\<not> is_mime_char CHR '';''"
  by code_simp

lemma takeWhile_mime:
  "\<forall>c \<in> set m. is_mime_char c \<Longrightarrow> takeWhile is_mime_char (m @ CHR '';'' # rest) = m"
  using semicolon_not_mime by (simp add: takeWhile_append2)

lemma dropWhile_mime:
  "\<forall>c \<in> set m. is_mime_char c \<Longrightarrow>
   dropWhile is_mime_char (m @ CHR '';'' # rest) = CHR '';'' # rest"
  using semicolon_not_mime by (simp add: dropWhile_append2)

lemma DATA_URL_RE_match_built:
  assumes "m \<noteq> []" and "\<forall>c \<in> set m. is_mime_char c"
    and "b64 \<noteq> []" and "newline \<notin> set b64"
  shows "DATA_URL_RE_match (''data:'' @ m @ '';base64,'' @ b64) = Some (m, b64)"
proof -
  from assms(3,4) have "last b64 \<noteq> newline"
    using last_in_set by metis
  then have st: "strip_final_newline b64 = b64"
    by (simp add: strip_final_newline_def)
  show ?thesis
    using assms(1,3,4)
    by (simp add: DATA_URL_RE_match_def Let_def takeWhile_mime [OF assms(2)]
        dropWhile_mime [OF assms(2)] st)
qed

lemma data_url_length_bound:
  assumes "ALLOWED_MIMES (lower m) \<noteq> None"
    and "MAX_SIZE_MB cfg \<le> 37"
    and "int (length b) \<le> MAX_SIZE_MB cfg * 1024 * 1024"
  shows "int (length (''data:'' @ m @ '';base64,'' @ b64encode b)) \<le> 50 * 1024 * 1024"
proof -
  from assms(1) have "lower m = ''image/jpeg'' \<or> lower m = ''image/png''
      \<or> lower m = ''image/webp''"
    by (auto simp: ALLOWED_MIMES_def split: if_splits)
  then have "length (lower m) \<le> 10" by auto
  then have m: "length m \<le> 10" by (simp add: lower_def)
  from assms(2,3) have "int (length b) \<le> 37 * 1024 * 1024" by linarith
  then have b: "length b \<le> 38797312" by simp
  have "length (b64encode b) = 4 * ((length b + 2) div 3)"
    by (rule length_b64encode)
  also from b have "\<dots> \<le> 51729752" by linarith
  finally have "length (b64encode b) \<le> 51729752" .
  with m show ?thesis by simp
qed

text \<open>
  C9, amended: for every non-empty byte sequence \<open>b\<close> within the configured limit and every
  MIME type \<open>m\<close> whose lower-cased form is allow-listed, provided the data URL is at most
  50 MiB characters long (which always holds when \<^verbatim>\<open>MAX_SIZE_MB\<close> is at most 37, so for the
  default 25), decoding \<^verbatim>\<open>data:\<close> \<open>m\<close> \<^verbatim>\<open>;base64,\<close> \<open>base64(b)\<close> returns exactly the lower-cased
  \<open>m\<close> and \<open>b\<close>.
\<close>

theorem parse_data_url_round_trip:
  assumes "ALLOWED_MIMES (lower m) \<noteq> None"
    and "b \<noteq> []"
    and "int (length b) \<le> MAX_SIZE_MB cfg * 1024 * 1024"
    and "MAX_SIZE_MB cfg \<le> 37
         \<or> int (length (''data:'' @ m @ '';base64,'' @ b64encode b)) \<le> 50 * 1024 * 1024"
  shows "parse_data_url cfg (''data:'' @ m @ '';base64,'' @ b64encode b) = Inr (lower m, b)"
proof -
  from assms(4) data_url_length_bound [OF assms(1) _ assms(3)]
  have len: "int (length (''data:'' @ m @ '';base64,'' @ b64encode b)) \<le> 50 * 1024 * 1024"
    by blast
  from assms(1) have m: "m \<noteq> []" "\<forall>c \<in> set m. is_mime_char c"
    by (rule allowed_mime_chars)+
  from assms(2) have enc: "b64encode b \<noteq> []"
    by (simp add: b64encode_hd)
  have "DATA_URL_RE_match (''data:'' @ m @ '';base64,'' @ b64encode b) = Some (m, b64encode b)"
    using m enc b64encode_no_newline by (rule DATA_URL_RE_match_built)
  moreover from len
  have "\<not> int (length (''data:'' @ m @ '';base64,'' @ b64encode b)) > 50 * 1024 * 1024"
    by linarith
  moreover from assms(3) have "\<not> int (length b) > MAX_SIZE_MB cfg * 1024 * 1024"
    by linarith
  ultimately show ?thesis
    using assms(1) unfolding parse_data_url_def
    by (simp only: if_False option.case prod.case Let_def b64decode_b64encode)
qed

theorem parse_data_url_round_trip_witness:
  "ALLOWED_MIMES (lower ''IMAGE/PNG'') \<noteq> None
   \<and> b64encode [77, 97, 110] = ''TWFu''
   \<and> parse_data_url cfg_default (''data:'' @ ''IMAGE/PNG'' @ '';base64,'' @ b64encode [77, 97, 110])
       = Inr (''image/png'', [77, 97, 110])"
proof -
  have a: "ALLOWED_MIMES (lower ''IMAGE/PNG'') \<noteq> None" by code_simp
  have e: "b64encode [77, 97, 110] = ''TWFu''" by code_simp
  have l: "lower ''IMAGE/PNG'' = ''image/png''" by code_simp
  have b: "[77, 97, 110 :: byte] \<noteq> []" by simp
  have s: "int (length [77, 97, 110 :: byte]) \<le> MAX_SIZE_MB cfg_default * 1024 * 1024"
    by (simp add: cfg_default_def)
  have u: "MAX_SIZE_MB cfg_default \<le> 37
      \<or> int (length (''data:'' @ ''IMAGE/PNG'' @ '';base64,'' @ b64encode [77, 97, 110]))
          \<le> 50 * 1024 * 1024"
    by (simp add: cfg_default_def)
  from parse_data_url_round_trip [OF a b s u] a e l show ?thesis
    by simp
qed

text \<open>
  C9, as stated, fails for the empty byte sequence: its base64 text is empty, and
  \<^verbatim>\<open>DATA_URL_RE\<close> asks for at least one character after the comma, so the data URL is
  rejected with status 400.
\<close>

theorem parse_data_url_empty_counterexample:
  "parse_data_url cfg_default (''data:'' @ ''image/png'' @ '';base64,'' @ b64encode [])
     \<noteq> Inr (lower ''image/png'', [])"
  by code_simp

subsection \<open>Payloads above the size limit\<close>

text \<open>
  C8, amended: for every upload with a non-empty file name whose data URL is at most 50 MiB
  characters long, matches \<^verbatim>\<open>DATA_URL_RE\<close> with an allow-listed MIME type and carries valid
  base64, if the decoded length exceeds \<^verbatim>\<open>MAX_SIZE_MB\<close> MiB then the upload fails with status
  413 and the filesystem is left exactly as it was.
\<close>

theorem upload_payload_too_large:
  assumes "filename payload \<noteq> []"
    and "int (length (data_url payload)) \<le> 50 * 1024 * 1024"
    and "DATA_URL_RE_match (data_url payload) = Some (m, b64)"
    and "ALLOWED_MIMES (lower m) \<noteq> None"
    and "b64decode_validate b64 = Some binary"
    and "int (length binary) > MAX_SIZE_MB cfg * 1024 * 1024"
  shows "upload cfg uuid_hex outcome fs payload request
           = (fs, Inl (HTTPException 413 (''Arquivo > '' @ str_int (MAX_SIZE_MB cfg) @ ''MB'')))"
proof -
  from assms(3) have ne: "data_url payload \<noteq> []"
    by (auto simp: DATA_URL_RE_match_def)
  from assms(2) have "\<not> int (length (data_url payload)) > 50 * 1024 * 1024"
    by linarith
  with assms(3-6) have "parse_data_url cfg (data_url payload)
      = Inl (HTTPException 413 (''Arquivo > '' @ str_int (MAX_SIZE_MB cfg) @ ''MB''))"
    unfolding parse_data_url_def
    by (simp only: if_False if_True option.case prod.case Let_def)
  with assms(1) ne show ?thesis
    by (simp add: upload_def upload_locate_def outer_except_def)
qed

theorem upload_payload_too_large_witness:
  "DATA_URL_RE_match (data_url (payload_ids ''foto.jpg'' (Some 5) (Some 2)))
     = Some (''image/jpeg'', ''TWFu'')
   \<and> b64decode_validate ''TWFu'' = Some [77, 97, 110]
   \<and> upload cfg_tiny uuid_example WriteOk Map.empty
        (payload_ids ''foto.jpg'' (Some 5) (Some 2)) req_plain
       = (Map.empty, Inl (HTTPException 413 ''Arquivo > 0MB''))"
proof -
  have f: "filename (payload_ids ''foto.jpg'' (Some 5) (Some 2)) \<noteq> []"
    by (simp add: payload_ids_def)
  have l: "int (length (data_url (payload_ids ''foto.jpg'' (Some 5) (Some 2)))) \<le> 50 * 1024 * 1024"
    by (simp add: payload_ids_def)
  have m: "DATA_URL_RE_match (data_url (payload_ids ''foto.jpg'' (Some 5) (Some 2)))
     = Some (''image/jpeg'', ''TWFu'')"
    by code_simp
  have a: "ALLOWED_MIMES (lower ''image/jpeg'') \<noteq> None"
    by code_simp
  have d: "b64decode_validate ''TWFu'' = Some [77, 97, 110]"
    by code_simp
  have s: "int (length [77, 97, 110 :: byte]) > MAX_SIZE_MB cfg_tiny * 1024 * 1024"
    by (simp add: cfg_tiny_def)
  have n: "str_int (MAX_SIZE_MB cfg_tiny) = ''0''"
    by (simp add: cfg_tiny_def str_int_digits)
  from upload_payload_too_large [OF f l m a d s, of uuid_example WriteOk Map.empty req_plain] m d n
  show ?thesis by simp
qed

text \<open>
  C8, as stated, fails: a well-formed data URL whose payload of 37.5 MiB exceeds the default
  limit of 25 MiB is longer than 50 MiB as a string, and is rejected by the length check of
  the first line of \<^verbatim>\<open>parse_data_url\<close> with status 400, not 413.
\<close>

theorem upload_oversized_string_counterexample:
  "b64decode_validate (b64encode big_binary) = Some big_binary
   \<and> int (length big_binary) > MAX_SIZE_MB cfg_default * 1024 * 1024
   \<and> upload cfg_default uuid_example WriteOk Map.empty big_payload req_plain
       = (Map.empty, Inl (HTTPException 400 (''data_url '' @ invalido @ '' ou muito grande'')))"
proof -
  have len: "length big_binary = 39321600"
    by (simp add: big_binary_def)
  then have "length (b64encode big_binary) = 52428800"
    by (simp add: length_b64encode)
  then have "int (length (data_url big_payload)) > 50 * 1024 * 1024"
    by (simp add: big_payload_def)
  then have "parse_data_url cfg_default (data_url big_payload)
      = Inl (HTTPException 400 (''data_url '' @ invalido @ '' ou muito grande''))"
    unfolding parse_data_url_def by (simp only: if_True)
  moreover have "filename big_payload \<noteq> []" "data_url big_payload \<noteq> []"
    by (simp_all add: big_payload_def)
  ultimately have "upload cfg_default uuid_example WriteOk Map.empty big_payload req_plain
       = (Map.empty, Inl (HTTPException 400 (''data_url '' @ invalido @ '' ou muito grande'')))"
    by (simp add: upload_def upload_locate_def outer_except_def)
  moreover from len have "int (length big_binary) > MAX_SIZE_MB cfg_default * 1024 * 1024"
    by (simp add: cfg_default_def)
  ultimately show ?thesis
    by (simp add: b64decode_b64encode)
qed

end
